theory Spec2Isabelle
  imports Main
begin

section \<open>The OpenAI Assistant agent node\<close>

text \<open>
  A shallow embedding of \<^verbatim>\<open>packages/components/nodes/agents/OpenAIAssistant/OpenAIAssistant.ts\<close>.
  The node is orchestration code: almost every line awaits a collaborator (the database, the
  credential store, the OpenAI service, a local tool, the file system). The embedding keeps the
  control flow of the source and makes the collaborators explicit:
  \<^item> what a collaborator answers is read from a record \<open>world\<close> of response functions; an
    answer is \<open>Inr v\<close> or \<open>Inl e\<close>, the latter standing for a rejected promise or a thrown
    exception;
  \<^item> every call to a collaborator is written to a log of \<open>event\<close>s, in program order;
  \<^item> the mutable state is the record \<open>machine\<close>: the image cache on disk, the answers the
    service is still going to give to status polls, the number of timer callbacks in flight at
    each of these polls, and the \<^verbatim>\<open>usedTools\<close> array.
\<close>

subsection \<open>Values\<close>

text \<open>
  JSON values. Object members are kept in one canonical order with distinct keys, so that
  lodash's deep comparison \<^verbatim>\<open>isEqual\<close> on two values is equality of their representations.
\<close>

datatype json =
    JNull
  | JBool bool
  | JNum int
  | JStr string
  | JArr "json list"
  | JObj "(string \<times> json) list"

text \<open>A thrown JavaScript \<^verbatim>\<open>Error\<close>: its \<^verbatim>\<open>name\<close> and its \<^verbatim>\<open>message\<close>.\<close>

datatype js_error = JsError (err_name: string) (err_message: string)

text \<open>\<^verbatim>\<open>Error.prototype.toString\<close>.\<close>

definition error_toString :: "js_error \<Rightarrow> string" where
  "error_toString e =
     (if err_name e = [] then err_message e
      else if err_message e = [] then err_name e
      else err_name e @ '': '' @ err_message e)"

text \<open>\<^verbatim>\<open>new Error(x)\<close>: the message is \<^verbatim>\<open>String(x)\<close>.\<close>

definition new_Error :: "string \<Rightarrow> js_error" where
  "new_Error msg = JsError ''Error'' msg"

definition new_Error_of :: "js_error \<Rightarrow> js_error" where
  "new_Error_of e = new_Error (error_toString e)"

text \<open>A possibly \<^verbatim>\<open>undefined\<close> string: how a template literal prints it, and its truthiness.\<close>

definition template :: "string option \<Rightarrow> string" where
  "template s = (case s of None \<Rightarrow> ''undefined'' | Some t \<Rightarrow> t)"

definition truthy :: "string option \<Rightarrow> bool" where
  "truthy s = (case s of None \<Rightarrow> False | Some t \<Rightarrow> t \<noteq> [])"

text \<open>Property access \<^verbatim>\<open>v.k\<close> on a parsed JSON value; reading a property of \<^verbatim>\<open>null\<close> throws.\<close>

definition property :: "json \<Rightarrow> string \<Rightarrow> js_error + json option" where
  "property v k =
     (case v of
        JNull \<Rightarrow> Inl (JsError ''TypeError'' (''Cannot read properties of null (reading ''
                                          @ [CHR 0x27] @ k @ [CHR 0x27] @ '')''))
      | JObj kvs \<Rightarrow> Inr (map_of kvs k)
      | _ \<Rightarrow> Inr None)"

fun string_of_nat :: "nat \<Rightarrow> string" where
  "string_of_nat n =
     (if n < 10 then [char_of (48 + n)]
      else string_of_nat (n div 10) @ [char_of (48 + n mod 10)])"

subsection \<open>Stored records and remote objects\<close>

record assistant_entity =
  assistant_id :: string
  credential :: "string option"
  details :: string

record chat_message =
  cm_chatId :: string
  cm_sessionId :: string

text \<open>
  An entry of the remote assistant's tool list: \<^verbatim>\<open>{type, function?}\<close>. The built-in tools
  (\<^verbatim>\<open>code_interpreter\<close>, \<^verbatim>\<open>retrieval\<close>) have no \<^verbatim>\<open>function\<close> member.
\<close>

datatype function_def =
  FunctionDef (fn_name: string) (fn_description: string) (fn_parameters: json)

datatype assistant_tool =
  AssistantTool (tool_type: string) (tool_function: "function_def option")

record remote_assistant =
  ra_id :: string
  ra_tools :: "assistant_tool list"

record thread =
  thread_id :: string

record tool_call =
  tc_id :: string
  tc_name :: string
  tc_arguments :: string

text \<open>
  A run as the service reports it. \<open>tool_calls\<close> is
  \<^verbatim>\<open>run.required_action?.submit_tool_outputs.tool_calls\<close>: \<open>None\<close> when
  \<^verbatim>\<open>required_action\<close> is null.
\<close>

record run_object =
  run_id :: string
  status :: string
  tool_calls :: "tool_call list option"

datatype content_part =
    MessageContentText string
  | MessageContentImageFile string

record message =
  role :: string
  content :: "content_part list"

record file_object =
  file_id :: string
  filename :: string

record http_response =
  ok :: bool
  http_status :: nat
  body :: string

subsection \<open>Caller input\<close>

text \<open>A local tool: \<^verbatim>\<open>name\<close>, \<^verbatim>\<open>description\<close>, a zod \<^verbatim>\<open>schema\<close> and the method \<^verbatim>\<open>call\<close>.\<close>

record 'z tool =
  name :: string
  description :: string
  schema :: 'z
  call :: "json \<Rightarrow> js_error + string"

text \<open>\<^verbatim>\<open>nodeData.inputs.tools\<close> may hold tools and arrays of tools.\<close>

datatype 'z tools_item = Tool "'z tool" | ToolList "'z tool list"

record 'z node_data =
  selectedAssistant :: "string option"
  sessionId :: "string option"
  tools :: "'z tools_item list option"

record used_tool =
  ut_tool :: string
  ut_toolInput :: json
  ut_toolOutput :: string

record tool_output =
  out_tool_call_id :: string
  out_output :: string

record action =
  act_tool :: string
  act_toolInput :: json
  act_toolCallId :: string

record options =
  chatId :: "string option"

subsection \<open>Collaborators\<close>

type_synonym credential_data = "(string \<times> string) list"

text \<open>
  What the collaborators answer during one invocation. The helpers \<^verbatim>\<open>getCredentialData\<close>,
  \<^verbatim>\<open>getCredentialParam\<close> and \<^verbatim>\<open>getUserHome\<close> of \<^verbatim>\<open>src/utils\<close>, the libraries
  (\<^verbatim>\<open>JSON.parse\<close>, \<^verbatim>\<open>zodToJsonSchema\<close>, base64 encoding), the two repositories of the
  database and the OpenAI client built from the resolved key are parameters. \<open>Inl e\<close> is a
  call that throws or rejects with \<open>e\<close>.
\<close>

record 'z world =
  findAssistant :: "string option \<Rightarrow> js_error + assistant_entity option"
  findChatMessage :: "string option \<Rightarrow> js_error + chat_message option"
  getCredentialData :: "string \<Rightarrow> js_error + credential_data"
  getCredentialParam :: "string \<Rightarrow> credential_data \<Rightarrow> 'z node_data \<Rightarrow> string option"
  getUserHome :: string
  JSON_parse :: "string \<Rightarrow> js_error + json"
  zodToJsonSchema :: "'z \<Rightarrow> json"
  base64 :: "string \<Rightarrow> string"
  assistants_retrieve :: "json option \<Rightarrow> js_error + remote_assistant"
  assistants_update :: "json option \<Rightarrow> assistant_tool list \<Rightarrow> js_error + unit"
  threads_create :: "js_error + thread"
  threads_retrieve :: "string \<Rightarrow> js_error + thread"
  threads_del :: "string option \<Rightarrow> js_error + unit"
  messages_create :: "string \<Rightarrow> string \<Rightarrow> js_error + unit"
  runs_create :: "string \<Rightarrow> string \<Rightarrow> js_error + run_object"
  runs_submitToolOutputs :: "string \<Rightarrow> string \<Rightarrow> tool_output list \<Rightarrow> js_error + unit"
  messages_list :: "string \<Rightarrow> js_error + message list option"
  files_retrieve :: "string \<Rightarrow> js_error + file_object"
  fetch :: "string \<Rightarrow> string \<Rightarrow> js_error + http_response"

text \<open>The calls made to the collaborators, with their arguments.\<close>

datatype event =
    FindAssistant "string option"
  | FindChatMessage "string option"
  | GetCredentialData string
  | LoggerError string
  | LoggerInfo string
  | ConsoleError js_error
  | ConsoleLog string
  | AssistantsRetrieve "json option"
  | AssistantsUpdate "json option" "assistant_tool list"
  | ThreadsCreate
  | ThreadsRetrieve string
  | ThreadsDel "string option"
  | MessagesCreate string string
  | RunsCreate string string
  | RunsRetrieve string string
  | ClearInterval
  | ToolCall string json
  | SubmitToolOutputs string string "tool_output list"
  | UncaughtInCallback js_error
  | MessagesList string
  | FilesRetrieve string
  | Fetch string string
  | WriteFile string
  | ReadFile string

text \<open>
  The mutable state: the files of the image cache; the answers the service will give to the
  status polls still to come, one for each callback that resumes while its timer is live; for each
  of these polls, the number of later callbacks that are in flight when its answer arrives; and
  the array \<^verbatim>\<open>usedTools\<close>.

  \<^verbatim>\<open>setInterval\<close> starts a callback every 500 ms whether or not the earlier ones have finished, and
  a callback can clear the timer only after its \<^verbatim>\<open>runs.retrieve\<close> has answered (lines 179 to
  186). So the callbacks started while a poll was awaited are in flight when its answer arrives:
  none if the service answers within 500 ms, \<open>n\<close> if it takes \<open>n\<close> intervals. The list
  \<open>inflight\<close> holds these numbers, in the order of \<open>polls\<close>; where it has run out, the number
  is 0.
\<close>

record machine =
  files :: "string \<Rightarrow> string option"
  polls :: "(js_error + run_object) list"
  inflight :: "nat list"
  usedTools :: "used_tool list"

text \<open>
  How an awaited computation ends. \<open>Stalled\<close>: the promise it waits for is never resolved nor
  rejected and its timer is cleared, so the caller waits forever. \<open>Polling\<close>: the timer is
  still running when the recorded answers to the polls run out.
\<close>

datatype 'a outcome = Returned 'a | Threw js_error | Stalled | Polling

type_synonym 'a prog = "machine \<Rightarrow> event list \<times> 'a outcome \<times> machine"

definition ret :: "'a \<Rightarrow> 'a prog" where
  "ret x m = ([], Returned x, m)"

definition throw :: "js_error \<Rightarrow> 'a prog" where
  "throw e m = ([], Threw e, m)"

definition lift :: "js_error + 'a \<Rightarrow> 'a prog" where
  "lift r m = ([], (case r of Inl e \<Rightarrow> Threw e | Inr v \<Rightarrow> Returned v), m)"

definition emit :: "event \<Rightarrow> unit prog" where
  "emit ev m = ([ev], Returned (), m)"

definition await :: "event \<Rightarrow> js_error + 'a \<Rightarrow> 'a prog" where
  "await ev r m = ([ev], (case r of Inl e \<Rightarrow> Threw e | Inr v \<Rightarrow> Returned v), m)"

definition andThen :: "'a prog \<Rightarrow> ('a \<Rightarrow> 'b prog) \<Rightarrow> 'b prog" where
  "andThen p f m =
     (case p m of
        (es, Returned x, m') \<Rightarrow> (case f x m' of (es', r) \<Rightarrow> (es @ es', r))
      | (es, Threw e, m') \<Rightarrow> (es, Threw e, m')
      | (es, Stalled, m') \<Rightarrow> (es, Stalled, m')
      | (es, Polling, m') \<Rightarrow> (es, Polling, m'))"

definition tryCatch :: "'a prog \<Rightarrow> (js_error \<Rightarrow> 'a prog) \<Rightarrow> 'a prog" where
  "tryCatch p h m =
     (case p m of
        (es, Threw e, m') \<Rightarrow> (case h e m' of (es', r) \<Rightarrow> (es @ es', r))
      | (es, r, m') \<Rightarrow> (es, r, m'))"

subsection \<open>Library functions\<close>

text \<open>lodash \<^verbatim>\<open>flatten\<close>: one level deep; \<^verbatim>\<open>flatten(undefined)\<close> is the empty array.\<close>

fun flatten :: "'z tools_item list option \<Rightarrow> 'z tool list" where
  "flatten None = []"
| "flatten (Some items) = concat (map (\<lambda>i. case i of Tool t \<Rightarrow> [t] | ToolList ts \<Rightarrow> ts) items)"

text \<open>
  lodash \<^verbatim>\<open>uniqWith(array, comparator)\<close>: a value is appended to the result unless the
  comparator relates it to a value already there, so the first occurrence is the one kept.
\<close>

fun uniqWith_from :: "('a \<Rightarrow> 'a \<Rightarrow> bool) \<Rightarrow> 'a list \<Rightarrow> 'a list \<Rightarrow> 'a list" where
  "uniqWith_from cmp result [] = result"
| "uniqWith_from cmp result (v # vs) =
     (if list_ex (\<lambda>seen. cmp v seen) result then uniqWith_from cmp result vs
      else uniqWith_from cmp (result @ [v]) vs)"

definition uniqWith :: "'a list \<Rightarrow> ('a \<Rightarrow> 'a \<Rightarrow> bool) \<Rightarrow> 'a list" where
  "uniqWith array cmp = uniqWith_from cmp [] array"

definition isEqual :: "assistant_tool \<Rightarrow> assistant_tool \<Rightarrow> bool" where
  "isEqual a b = (a = b)"

text \<open>\<^verbatim>\<open>path.join\<close> on segments that need no normalisation.\<close>

fun path_join :: "string list \<Rightarrow> string" where
  "path_join [] = ''.''"
| "path_join [p] = p"
| "path_join (p # ps) = p @ ''/'' @ path_join ps"

declare path_join.simps [simp del]

subsection \<open>\<^verbatim>\<open>formatToOpenAIAssistantTool\<close> and \<^verbatim>\<open>downloadFile\<close>\<close>

definition formatToOpenAIAssistantTool :: "'z world \<Rightarrow> 'z tool \<Rightarrow> assistant_tool" where
  "formatToOpenAIAssistantTool w t =
     AssistantTool ''function''
       (Some (FunctionDef (name t) (description t) (zodToJsonSchema w (schema t))))"

text \<open>
  Writing the response body to \<open>filePath\<close> (creating the directory first) and
  \<^verbatim>\<open>fs.readFileSync\<close>. The write itself is taken to succeed; a missing file makes the read throw.
\<close>

definition writeFile :: "string \<Rightarrow> string \<Rightarrow> unit prog" where
  "writeFile filePath bytes m =
     ([WriteFile filePath], Returned (), m\<lparr>files := (files m)(filePath \<mapsto> bytes)\<rparr>)"

definition readFileSync :: "string \<Rightarrow> string prog" where
  "readFileSync filePath m =
     ([ReadFile filePath],
      (case files m filePath of
         None \<Rightarrow> Threw (JsError ''Error'' (''ENOENT: no such file or directory, open ''
                                        @ [CHR 0x27] @ filePath @ [CHR 0x27]))
       | Some bytes \<Rightarrow> Returned bytes),
      m)"

definition downloadFile :: "'z world \<Rightarrow> file_object \<Rightarrow> string \<Rightarrow> string \<Rightarrow> string \<Rightarrow> unit prog" where
  "downloadFile w fileObj filePath dirPath openAIApiKey =
     tryCatch
       (let url = ''https://api.openai.com/v1/files/'' @ file_id fileObj @ ''/content'' in
        andThen (await (Fetch url openAIApiKey) (fetch w url openAIApiKey)) (\<lambda>response.
          if \<not> ok response
          then throw (new_Error (''HTTP error! status: '' @ string_of_nat (http_status response)))
          else
            andThen (writeFile filePath (body response)) (\<lambda>_.
            emit (ConsoleLog (''File downloaded and written to '' @ filePath)))))
       (\<lambda>error. emit (ConsoleError error))"

subsection \<open>\<^verbatim>\<open>clearSessionMemory\<close>\<close>

text \<open>\<^verbatim>\<open>assistant.credential ?? ''\<close>.\<close>

definition credentialOf :: "assistant_entity \<Rightarrow> string" where
  "credentialOf a = (case credential a of None \<Rightarrow> [] | Some c \<Rightarrow> c)"

text \<open>Lines 105 to 115: what follows once \<^verbatim>\<open>sessionId\<close> is settled.\<close>

definition clearThread ::
  "'z world \<Rightarrow> 'z node_data \<Rightarrow> assistant_entity \<Rightarrow> string option \<Rightarrow> unit prog" where
  "clearThread w nodeData assistant sid =
     (let cred = credentialOf assistant in
      andThen (await (GetCredentialData cred) (getCredentialData w cred)) (\<lambda>credentialData.
        let openAIApiKey = getCredentialParam w ''openAIApiKey'' credentialData nodeData in
        if \<not> truthy openAIApiKey then emit (LoggerError ''OpenAI ApiKey not found'')
        else
          andThen (emit (LoggerInfo (''Clearing OpenAI Thread '' @ template sid))) (\<lambda>_.
          andThen (await (ThreadsDel sid) (threads_del w sid)) (\<lambda>_.
          emit (LoggerInfo (''Successfully cleared OpenAI Thread '' @ template sid))))))"

definition clearSessionMemory :: "'z world \<Rightarrow> 'z node_data \<Rightarrow> options \<Rightarrow> unit prog" where
  "clearSessionMemory w nodeData opts =
     (let selectedAssistantId = selectedAssistant nodeData in
      andThen (await (FindAssistant selectedAssistantId) (findAssistant w selectedAssistantId))
        (\<lambda>assistant.
          case assistant of
            None \<Rightarrow> emit (LoggerError (''Assistant '' @ template selectedAssistantId @ '' not found''))
          | Some a \<Rightarrow>
              if \<not> truthy (sessionId nodeData) \<and> truthy (chatId opts)
              then
                andThen (await (FindChatMessage (chatId opts)) (findChatMessage w (chatId opts)))
                  (\<lambda>chatmsg.
                    case chatmsg of
                      None \<Rightarrow>
                        emit (LoggerError (''Chat Message with Chat Id: '' @ template (chatId opts)
                                           @ '' not found''))
                    | Some c \<Rightarrow> clearThread w nodeData a (Some (cm_sessionId c)))
              else clearThread w nodeData a (sessionId nodeData)))"

subsection \<open>\<^verbatim>\<open>run\<close>: retrieving the assistant, its tools, the thread and the run\<close>

text \<open>Lines 144 to 148: the tool list pushed to the remote assistant.\<close>

definition filteredTools :: "assistant_tool list \<Rightarrow> assistant_tool list \<Rightarrow> assistant_tool list" where
  "filteredTools remoteTools formattedTools =
     filter (\<lambda>t. \<not> (tool_type t = ''function'' \<and> tool_function t = None))
       (uniqWith (remoteTools @ formattedTools) isEqual)"

text \<open>Lines 144 to 148: the update is issued only when there are formatted tools.\<close>

definition syncTools ::
  "'z world \<Rightarrow> json option \<Rightarrow> remote_assistant \<Rightarrow> assistant_tool list \<Rightarrow> unit prog" where
  "syncTools w openAIAssistantId retrievedAssistant formattedTools =
     (if formattedTools \<noteq> []
      then (let pushed = filteredTools (ra_tools retrievedAssistant) formattedTools in
            await (AssistantsUpdate openAIAssistantId pushed)
              (assistants_update w openAIAssistantId pushed))
      else ret ())"

text \<open>Lines 150 to 161: the thread of the chat, created when the chat has no stored message.\<close>

definition selectThread :: "'z world \<Rightarrow> options \<Rightarrow> string prog" where
  "selectThread w opts =
     andThen (await (FindChatMessage (chatId opts)) (findChatMessage w (chatId opts)))
       (\<lambda>chatmessage.
          case chatmessage of
            None \<Rightarrow> andThen (await ThreadsCreate (threads_create w)) (\<lambda>th. ret (thread_id th))
          | Some c \<Rightarrow>
              andThen (await (ThreadsRetrieve (cm_sessionId c))
                         (threads_retrieve w (cm_sessionId c)))
                (\<lambda>th. ret (thread_id th)))"

text \<open>
  Lines 140 to 172, the first part of the \<^verbatim>\<open>try\<close> block. It yields
  \<^verbatim>\<open>openAIAssistantId\<close>, \<^verbatim>\<open>threadId\<close> and \<^verbatim>\<open>runThread\<close>.
\<close>

definition prepare ::
  "'z world \<Rightarrow> assistant_tool list \<Rightarrow> assistant_entity \<Rightarrow> string \<Rightarrow> options
     \<Rightarrow> (json option \<times> string \<times> run_object) prog" where
  "prepare w formattedTools assistant input opts =
     andThen (lift (JSON_parse w (details assistant))) (\<lambda>assistantDetails.
     andThen (lift (property assistantDetails ''id'')) (\<lambda>openAIAssistantId.
     andThen (await (AssistantsRetrieve openAIAssistantId) (assistants_retrieve w openAIAssistantId))
       (\<lambda>retrievedAssistant.
     andThen (syncTools w openAIAssistantId retrievedAssistant formattedTools) (\<lambda>_.
     andThen (selectThread w opts) (\<lambda>threadId.
     andThen (await (MessagesCreate threadId input) (messages_create w threadId input)) (\<lambda>_.
     andThen (await (RunsCreate threadId (ra_id retrievedAssistant))
                (runs_create w threadId (ra_id retrievedAssistant))) (\<lambda>runThread.
     ret (openAIAssistantId, threadId, runThread))))))))"

subsection \<open>\<^verbatim>\<open>run\<close>: polling the run\<close>

text \<open>Lines 187 to 196: \<^verbatim>\<open>forEach\<close> parses the arguments of every call before any tool runs.\<close>

fun parseActions :: "'z world \<Rightarrow> tool_call list \<Rightarrow> js_error + action list" where
  "parseActions w [] = Inr []"
| "parseActions w (item # items) =
     (case JSON_parse w (tc_arguments item) of
        Inl e \<Rightarrow> Inl e
      | Inr args \<Rightarrow>
          (case parseActions w items of
             Inl e \<Rightarrow> Inl e
           | Inr actions \<Rightarrow>
               Inr (\<lparr>act_tool = tc_name item, act_toolInput = args, act_toolCallId = tc_id item\<rparr>
                    # actions)))"

definition pushUsedTool :: "used_tool \<Rightarrow> unit prog" where
  "pushUsedTool u m = ([], Returned (), m\<lparr>usedTools := usedTools m @ [u]\<rparr>)"

text \<open>Lines 198 to 212: the \<^verbatim>\<open>for\<close> loop over the actions; the accumulator is \<^verbatim>\<open>submitToolOutputs\<close>.\<close>

fun invokeTools :: "'z tool list \<Rightarrow> action list \<Rightarrow> tool_output list \<Rightarrow> tool_output list prog" where
  "invokeTools ts [] outs = ret outs"
| "invokeTools ts (a # as) outs =
     (case find (\<lambda>t. name t = act_tool a) ts of
        None \<Rightarrow> invokeTools ts as outs
      | Some t \<Rightarrow>
          andThen (await (ToolCall (name t) (act_toolInput a)) (call t (act_toolInput a)))
            (\<lambda>toolOutput.
          andThen (pushUsedTool \<lparr>ut_tool = name t, ut_toolInput = act_toolInput a,
                                 ut_toolOutput = toolOutput\<rparr>) (\<lambda>_.
          invokeTools ts as
            (outs @ [\<lparr>out_tool_call_id = act_toolCallId a, out_output = toolOutput\<rparr>]))))"

text \<open>
  What one run of the interval callback leaves behind: the timer still running and the promise
  unsettled (\<open>Pending\<close>), the promise resolved or rejected with the timer cleared, or the timer
  cleared and the promise left unsettled (\<open>Abandoned\<close>).
\<close>

datatype tick = Pending | Resolved string | Rejected js_error | Abandoned

text \<open>Lines 186 to 225, after \<^verbatim>\<open>clearInterval\<close>: the branch taken when tool calls are present.\<close>

definition submitRequiredAction ::
  "'z world \<Rightarrow> 'z tool list \<Rightarrow> string \<Rightarrow> string \<Rightarrow> string \<Rightarrow> tool_call list \<Rightarrow> tick prog" where
  "submitRequiredAction w ts threadId runId state calls =
     andThen (lift (parseActions w calls)) (\<lambda>actions.
     andThen (invokeTools ts actions []) (\<lambda>outs.
       if outs \<noteq> []
       then andThen (await (SubmitToolOutputs threadId runId outs)
                       (runs_submitToolOutputs w threadId runId outs)) (\<lambda>_.
            ret (Resolved state))
       else ret (Rejected (new_Error
              (''Error processing thread: '' @ state @ '', Thread ID: '' @ threadId
               @ '', Run ID: '' @ runId @ ''. submit_tool_outputs.tool_calls are empty'')))))"

text \<open>
  Lines 178 to 231: one run of the callback of \<^verbatim>\<open>setInterval\<close>, on the answer \<open>answer\<close> of
  \<^verbatim>\<open>runs.retrieve\<close>. The callback is an \<^verbatim>\<open>async\<close> function whose promise nobody awaits: an
  exception inside it settles nothing. The poll is logged when its answer arrives and the
  callback resumes.
\<close>

definition intervalCallback ::
  "'z world \<Rightarrow> 'z tool list \<Rightarrow> string \<Rightarrow> string \<Rightarrow> js_error + run_object
     \<Rightarrow> machine \<Rightarrow> event list \<times> tick \<times> machine" where
  "intervalCallback w ts threadId runId answer m =
     (case answer of
        Inl e \<Rightarrow> ([RunsRetrieve threadId runId, UncaughtInCallback e], Pending, m)
      | Inr r \<Rightarrow>
          (let state = status r in
           if state = ''completed''
           then ([RunsRetrieve threadId runId, ClearInterval], Resolved state, m)
           else if state = ''requires_action''
           then
             (case tool_calls r of
                None \<Rightarrow> ([RunsRetrieve threadId runId], Pending, m)
              | Some calls \<Rightarrow>
                  (case submitRequiredAction w ts threadId runId state calls m of
                     (es, Returned t, m') \<Rightarrow>
                       ([RunsRetrieve threadId runId, ClearInterval] @ es, t, m')
                   | (es, Threw e, m') \<Rightarrow>
                       ([RunsRetrieve threadId runId, ClearInterval] @ es @ [UncaughtInCallback e],
                        Abandoned, m')
                   | (es, _, m') \<Rightarrow>
                       ([RunsRetrieve threadId runId, ClearInterval] @ es, Abandoned, m')))
           else if state = ''cancelled'' \<or> state = ''expired'' \<or> state = ''failed''
           then ([RunsRetrieve threadId runId, ClearInterval],
                 Rejected (new_Error (''Error processing thread: '' @ state @ '', Thread ID: ''
                                      @ threadId @ '', Run ID: '' @ runId)),
                 m)
           else ([RunsRetrieve threadId runId], Pending, m)))"

text \<open>
  The callbacks in flight when a callback clears the timer: \<^verbatim>\<open>clearInterval\<close> prevents further
  firings, it does not stop the callbacks already started. Each of them resumes with the answer to
  its own \<^verbatim>\<open>runs.retrieve\<close> and runs lines 180 to 230 on it. That answer is taken to be the one
  that made the first callback clear the timer (the statuses on which the timer is cleared do not
  change until tool outputs are submitted), and the callbacks in flight are taken to resume one
  after the other, once the first has finished. A promise settles once, so a later \<^verbatim>\<open>resolve\<close> or
  \<^verbatim>\<open>reject\<close> has no effect; a callback in flight settles the promise if the earlier ones left
  it unsettled.
\<close>

fun lateCallbacks ::
  "'z world \<Rightarrow> 'z tool list \<Rightarrow> string \<Rightarrow> string \<Rightarrow> js_error + run_object \<Rightarrow> nat \<Rightarrow> tick
     \<Rightarrow> machine \<Rightarrow> event list \<times> tick \<times> machine" where
  "lateCallbacks w ts threadId runId answer 0 t m = ([], t, m)"
| "lateCallbacks w ts threadId runId answer (Suc k) t m =
     (case intervalCallback w ts threadId runId answer m of
        (es, t', m') \<Rightarrow>
          (case lateCallbacks w ts threadId runId answer k (if t = Abandoned then t' else t) m' of
             (es', r) \<Rightarrow> (es @ es', r)))"

text \<open>
  What one answer of the service sets off: the callback that resumes with it and, if that
  callback cleared the timer, the callbacks in flight at that moment. A callback that leaves the
  timer running (\<open>Pending\<close>) sets off nothing else: the callbacks in flight are the next ones, and
  resume with the next answers.
\<close>

definition callbacks ::
  "'z world \<Rightarrow> 'z tool list \<Rightarrow> string \<Rightarrow> string \<Rightarrow> js_error + run_object
     \<Rightarrow> machine \<Rightarrow> event list \<times> tick \<times> machine" where
  "callbacks w ts threadId runId answer m =
     (case intervalCallback w ts threadId runId answer (m\<lparr>inflight := tl (inflight m)\<rparr>) of
        (es, t, m') \<Rightarrow>
          if t = Pending then (es, Pending, m')
          else
            (case lateCallbacks w ts threadId runId answer
                    (case inflight m of [] \<Rightarrow> 0 | k # _ \<Rightarrow> k) t m' of
               (es', r) \<Rightarrow> (es @ es', r)))"

text \<open>
  Lines 176 to 233: \<^verbatim>\<open>promise(threadId, runId)\<close>. The timer fires, and a callback resumes
  with the next answer of the service, until a callback clears the timer. The answers not asked
  for stay in the machine, for the next promise.
\<close>

fun ticks ::
  "'z world \<Rightarrow> 'z tool list \<Rightarrow> string \<Rightarrow> string \<Rightarrow> (js_error + run_object) list \<Rightarrow> string prog" where
  "ticks w ts threadId runId [] m = ([], Polling, m\<lparr>polls := []\<rparr>)"
| "ticks w ts threadId runId (answer # answers) m =
     (case callbacks w ts threadId runId answer m of
        (es, Pending, m') \<Rightarrow>
          (case ticks w ts threadId runId answers m' of (es', r) \<Rightarrow> (es @ es', r))
      | (es, Resolved s, m') \<Rightarrow> (es, Returned s, m'\<lparr>polls := answers\<rparr>)
      | (es, Rejected e, m') \<Rightarrow> (es, Threw e, m'\<lparr>polls := answers\<rparr>)
      | (es, Abandoned, m') \<Rightarrow> (es, Stalled, m'\<lparr>polls := answers\<rparr>))"

definition promise :: "'z world \<Rightarrow> 'z tool list \<Rightarrow> string \<Rightarrow> string \<Rightarrow> string prog" where
  "promise w ts threadId runId m = ticks w ts threadId runId (polls m) m"

text \<open>
  Lines 236 to 239: \<^verbatim>\<open>promise\<close> is awaited again as long as it resolves to
  \<^verbatim>\<open>requires_action\<close>. Every promise that settles has used up at least one answer.
\<close>

function pollingLoop :: "'z world \<Rightarrow> 'z tool list \<Rightarrow> string \<Rightarrow> string \<Rightarrow> string prog" where
  "pollingLoop w ts threadId runId m =
     (case promise w ts threadId runId m of
        (es, Returned state, m') \<Rightarrow>
          if state = ''requires_action''
          then (case pollingLoop w ts threadId runId m' of (es', r) \<Rightarrow> (es @ es', r))
          else (es, Returned state, m')
      | (es, r, m') \<Rightarrow> (es, r, m'))"
  by pat_completeness auto
termination
proof -
  have shorter: "length (polls m') < length answers"
    if "ticks w ts threadId runId answers m = (es, Returned s, m')"
    for w :: "'z world" and ts threadId runId answers m es s m'
    using that
  proof (induction answers arbitrary: m es)
    case Nil
    then show ?case by simp
  next
    case (Cons a answers)
    then show ?case
      by (auto split: prod.splits tick.splits intro: less_SucI)
  qed
  show ?thesis
    by (relation "measure (\<lambda>(w, ts, threadId, runId, m). length (polls m))")
       (auto simp: promise_def dest: shorter [OF sym])
qed

declare pollingLoop.simps [simp del]

subsection \<open>\<^verbatim>\<open>run\<close>: assembling the response\<close>

text \<open>What \<^verbatim>\<open>run\<close> returns: a string, or the object with the text and the identifiers.\<close>

record run_output =
  out_text :: string
  out_usedTools :: "used_tool list"
  out_assistantId :: "json option"
  out_threadId :: string
  out_runId :: string
  out_messages :: "message list"

datatype run_return = ReturnedString string | ReturnedObject run_output

definition imgHTML :: "string \<Rightarrow> string \<Rightarrow> string" where
  "imgHTML base64String fname =
     ''<img src='' @ [CHR 0x22] @ ''data:image/png;base64,'' @ base64String @ [CHR 0x22]
     @ '' width='' @ [CHR 0x22] @ ''100%'' @ [CHR 0x22]
     @ '' height='' @ [CHR 0x22] @ ''max-content'' @ [CHR 0x22]
     @ '' alt='' @ [CHR 0x22] @ fname @ [CHR 0x22] @ '' /><br/>''"

text \<open>Lines 247 to 269: the loop over the content parts; the accumulator is \<^verbatim>\<open>returnVal\<close>.\<close>

fun renderContent :: "'z world \<Rightarrow> string \<Rightarrow> content_part list \<Rightarrow> string \<Rightarrow> string prog" where
  "renderContent w openAIApiKey [] returnVal = ret returnVal"
| "renderContent w openAIApiKey (MessageContentText v # parts) returnVal =
     renderContent w openAIApiKey parts (returnVal @ v)"
| "renderContent w openAIApiKey (MessageContentImageFile fileId # parts) returnVal =
     andThen (await (FilesRetrieve fileId) (files_retrieve w fileId)) (\<lambda>fileObj.
       let dirPath = path_join [getUserHome w, ''.flowise'', ''openai-assistant''];
           filePath = path_join [getUserHome w, ''.flowise'', ''openai-assistant'',
                                 filename fileObj @ ''.png'']
       in
       andThen (downloadFile w fileObj filePath dirPath openAIApiKey) (\<lambda>_.
       andThen (readFileSync filePath) (\<lambda>bitmap.
         let base64String = base64 w bitmap in
         renderContent w openAIApiKey parts
           (returnVal @ imgHTML base64String (filename fileObj)))))"

text \<open>Lines 242 to 275.\<close>

definition respond ::
  "'z world \<Rightarrow> string \<Rightarrow> json option \<Rightarrow> string \<Rightarrow> run_object \<Rightarrow> run_return prog" where
  "respond w openAIApiKey openAIAssistantId threadId runThread =
     andThen (await (MessagesList threadId) (messages_list w threadId)) (\<lambda>messages.
       let messageData = (case messages of None \<Rightarrow> [] | Some d \<Rightarrow> d);
           assistantMessages = filter (\<lambda>msg. role msg = ''assistant'') messageData
       in
       case assistantMessages of
         [] \<Rightarrow> ret (ReturnedString [])
       | first # _ \<Rightarrow>
           andThen (renderContent w openAIApiKey (content first) []) (\<lambda>returnVal.
           (\<lambda>m. ret (ReturnedObject
                   \<lparr>out_text = returnVal, out_usedTools = usedTools m,
                    out_assistantId = openAIAssistantId, out_threadId = threadId,
                    out_runId = run_id runThread, out_messages = messageData\<rparr>) m)))"

subsection \<open>\<^verbatim>\<open>run\<close>\<close>

text \<open>Lines 139 to 278: the \<^verbatim>\<open>try\<close> block; whatever it throws is rethrown as \<^verbatim>\<open>new Error(error)\<close>.\<close>

definition runAssistant ::
  "'z world \<Rightarrow> 'z tool list \<Rightarrow> assistant_tool list \<Rightarrow> assistant_entity \<Rightarrow> string \<Rightarrow> string
     \<Rightarrow> options \<Rightarrow> run_return prog" where
  "runAssistant w ts formattedTools assistant openAIApiKey input opts =
     tryCatch
       (andThen (prepare w formattedTools assistant input opts)
          (\<lambda>(openAIAssistantId, threadId, runThread).
        andThen (\<lambda>m. ret () (m\<lparr>usedTools := []\<rparr>)) (\<lambda>_.
        andThen (pollingLoop w ts threadId (run_id runThread)) (\<lambda>_.
        respond w openAIApiKey openAIAssistantId threadId runThread))))
       (\<lambda>error. throw (new_Error_of error))"

definition run :: "'z world \<Rightarrow> 'z node_data \<Rightarrow> string \<Rightarrow> options \<Rightarrow> run_return prog" where
  "run w nodeData input opts =
     (let selectedAssistantId = selectedAssistant nodeData;
          ts = flatten (tools nodeData);
          formattedTools = map (formatToOpenAIAssistantTool w) ts
      in
      andThen (await (FindAssistant selectedAssistantId) (findAssistant w selectedAssistantId))
        (\<lambda>assistant.
          case assistant of
            None \<Rightarrow> throw (new_Error (''Assistant '' @ template selectedAssistantId @ '' not found''))
          | Some a \<Rightarrow>
              (let cred = credentialOf a in
               andThen (await (GetCredentialData cred) (getCredentialData w cred))
                 (\<lambda>credentialData.
                   case getCredentialParam w ''openAIApiKey'' credentialData nodeData of
                     None \<Rightarrow> throw (new_Error ''OpenAI ApiKey not found'')
                   | Some openAIApiKey \<Rightarrow>
                       if openAIApiKey = [] then throw (new_Error ''OpenAI ApiKey not found'')
                       else runAssistant w ts formattedTools a openAIApiKey input opts))))"

section \<open>Vocabulary of the specification\<close>

subsection \<open>Kinds of events\<close>

text \<open>The events of the four stretches of \<^verbatim>\<open>run\<close>: resolving the stored assistant and its key
  (lines 119 to 136), preparing the run (140 to 172), polling (176 to 239), responding (242 to 275).\<close>

fun resolve_event :: "event \<Rightarrow> bool" where
  "resolve_event (FindAssistant _) = True"
| "resolve_event (GetCredentialData _) = True"
| "resolve_event _ = False"

fun prepare_event :: "event \<Rightarrow> bool" where
  "prepare_event (AssistantsRetrieve _) = True"
| "prepare_event (AssistantsUpdate _ _) = True"
| "prepare_event (FindChatMessage _) = True"
| "prepare_event ThreadsCreate = True"
| "prepare_event (ThreadsRetrieve _) = True"
| "prepare_event (MessagesCreate _ _) = True"
| "prepare_event (RunsCreate _ _) = True"
| "prepare_event _ = False"

fun polling_event :: "event \<Rightarrow> bool" where
  "polling_event (RunsRetrieve _ _) = True"
| "polling_event ClearInterval = True"
| "polling_event (ToolCall _ _) = True"
| "polling_event (SubmitToolOutputs _ _ _) = True"
| "polling_event (UncaughtInCallback _) = True"
| "polling_event _ = False"

fun respond_event :: "event \<Rightarrow> bool" where
  "respond_event (MessagesList _) = True"
| "respond_event (FilesRetrieve _) = True"
| "respond_event (Fetch _ _) = True"
| "respond_event (WriteFile _) = True"
| "respond_event (ReadFile _) = True"
| "respond_event (ConsoleLog _) = True"
| "respond_event (ConsoleError _) = True"
| "respond_event _ = False"

text \<open>The calls that update the remote assistant.\<close>

fun is_update :: "event \<Rightarrow> bool" where
  "is_update (AssistantsUpdate _ _) = True"
| "is_update _ = False"



text \<open>The two lookups in the database.\<close>

fun lookup_event :: "event \<Rightarrow> bool" where
  "lookup_event (FindAssistant _) = True"
| "lookup_event (FindChatMessage _) = True"
| "lookup_event _ = False"

text \<open>A computation that leaves the machine alone, neither stalls nor polls, and emits only events
  that satisfy \<open>P\<close>.\<close>

definition quiet :: "(event \<Rightarrow> bool) \<Rightarrow> 'a prog \<Rightarrow> bool" where
  "quiet P p \<longleftrightarrow>
     (\<forall>m es r m'. p m = (es, r, m') \<longrightarrow> m' = m \<and> list_all P es \<and> r \<noteq> Stalled \<and> r \<noteq> Polling)"

subsection \<open>Resolution\<close>

text \<open>The stored assistant \<open>a\<close> is found and its credential yields the non-empty key \<open>key\<close>
  (lines 126 to 134 throw nothing).\<close>

definition resolved :: "'z world \<Rightarrow> 'z node_data \<Rightarrow> assistant_entity \<Rightarrow> string \<Rightarrow> bool" where
  "resolved w nodeData a key \<longleftrightarrow>
     findAssistant w (selectedAssistant nodeData) = Inr (Some a)
     \<and> (case getCredentialData w (credentialOf a) of
          Inl e \<Rightarrow> False
        | Inr cd \<Rightarrow> getCredentialParam w ''openAIApiKey'' cd nodeData = Some key)
     \<and> key \<noteq> []"

definition resolveEvents :: "'z node_data \<Rightarrow> assistant_entity \<Rightarrow> event list" where
  "resolveEvents nodeData a =
     [FindAssistant (selectedAssistant nodeData),
      GetCredentialData (credentialOf a)]"

subsection \<open>Tool calls of one \<^verbatim>\<open>requires_action\<close> cycle\<close>

text \<open>The actions that name a local tool, each with the first tool of that name, in the order of
  the actions; the calls, outputs and used-tool records they give rise to when the tools answer
  \<open>results\<close>.\<close>

definition matched :: "'z tool list \<Rightarrow> action list \<Rightarrow> ('z tool \<times> action) list" where
  "matched ts actions =
     List.map_filter (\<lambda>a. map_option (\<lambda>t. (t, a)) (find (\<lambda>t. name t = act_tool a) ts)) actions"

definition toolCallEvents :: "('z tool \<times> action) list \<Rightarrow> event list" where
  "toolCallEvents ma = map (\<lambda>(t, a). ToolCall (name t) (act_toolInput a)) ma"

definition toolOutputs :: "('z tool \<times> action) list \<Rightarrow> string list \<Rightarrow> tool_output list" where
  "toolOutputs ma results =
     map2 (\<lambda>(t, a) out. \<lparr>out_tool_call_id = act_toolCallId a, out_output = out\<rparr>) ma results"

definition usedToolRecords :: "('z tool \<times> action) list \<Rightarrow> string list \<Rightarrow> used_tool list" where
  "usedToolRecords ma results =
     map2 (\<lambda>(t, a) out. \<lparr>ut_tool = name t, ut_toolInput = act_toolInput a, ut_toolOutput = out\<rparr>)
       ma results"

definition allSucceed :: "('z tool \<times> action) list \<Rightarrow> string list \<Rightarrow> bool" where
  "allSucceed ma results = list_all2 (\<lambda>(t, a) out. call t (act_toolInput a) = Inr out) ma results"

subsection \<open>The polling loop as one recursion\<close>

text \<open>
  \<open>drive\<close> runs the callbacks on one answer after the other and starts the next promise where
  the last one resolved to \<^verbatim>\<open>requires_action\<close>. Lemma \<open>pollingLoop_drive\<close> shows that it is
  \<open>pollingLoop\<close>; the properties of the loop are proved by induction on the answers.
\<close>

fun drive ::
  "'z world \<Rightarrow> 'z tool list \<Rightarrow> string \<Rightarrow> string \<Rightarrow> (js_error + run_object) list \<Rightarrow> string prog" where
  "drive w ts threadId runId [] m = ([], Polling, m\<lparr>polls := []\<rparr>)"
| "drive w ts threadId runId (answer # answers) m =
     (case callbacks w ts threadId runId answer m of
        (es, Pending, m') \<Rightarrow>
          (case drive w ts threadId runId answers m' of (es', r) \<Rightarrow> (es @ es', r))
      | (es, Resolved s, m') \<Rightarrow>
          if s = ''requires_action''
          then (case drive w ts threadId runId answers (m'\<lparr>polls := answers\<rparr>) of
                  (es', r) \<Rightarrow> (es @ es', r))
          else (es, Returned s, m'\<lparr>polls := answers\<rparr>)
      | (es, Rejected e, m') \<Rightarrow> (es, Threw e, m'\<lparr>polls := answers\<rparr>)
      | (es, Abandoned, m') \<Rightarrow> (es, Stalled, m'\<lparr>polls := answers\<rparr>))"

text \<open>A tick after which another callback runs, and how the promise ends otherwise.\<close>

definition continues :: "tick \<Rightarrow> bool" where
  "continues t = (t = Pending \<or> t = Resolved ''requires_action'')"

fun settle :: "tick \<Rightarrow> string outcome" where
  "settle Pending = Polling"
| "settle (Resolved s) = Returned s"
| "settle (Rejected e) = Threw e"
| "settle Abandoned = Stalled"

text \<open>
  \<open>answered m m' pre a post\<close>: the invocation that started in machine \<open>m\<close> and ended in \<open>m'\<close>
  polled the run and was answered \<open>a\<close>, after the answers \<open>pre\<close>; the answers \<open>post\<close> were
  still to come (those of \<open>m'\<close> are what was never asked for).
\<close>

definition answered ::
  "machine \<Rightarrow> machine \<Rightarrow> (js_error + run_object) list \<Rightarrow> js_error + run_object
     \<Rightarrow> (js_error + run_object) list \<Rightarrow> bool" where
  "answered m m' pre a post \<longleftrightarrow> polls m = pre @ a # post \<and> length (polls m') \<le> length post"

text \<open>The statuses on which the callback rejects the promise.\<close>

definition terminal :: "string \<Rightarrow> bool" where
  "terminal s \<longleftrightarrow> s = ''cancelled'' \<or> s = ''expired'' \<or> s = ''failed''"

subsection \<open>The messages of the thread\<close>

definition messageData :: "message list option \<Rightarrow> message list" where
  "messageData ms = (case ms of None \<Rightarrow> [] | Some d \<Rightarrow> d)"

definition assistantMessages :: "message list option \<Rightarrow> message list" where
  "assistantMessages ms = filter (\<lambda>msg. role msg = ''assistant'') (messageData ms)"

section \<open>A concrete deployment\<close>

text \<open>
  One stored assistant \<open>a1\<close> with its key, one earlier chat \<open>chat-old\<close>, and a remote service
  that answers every call. The examples below vary single answers of this world.
\<close>

definition calculator :: "unit tool" where
  "calculator = \<lparr>name = ''calculator'', description = ''adds numbers'', schema = (),
                  call = (\<lambda>input. Inr ''42'')\<rparr>"

definition search :: "unit tool" where
  "search = \<lparr>name = ''search'', description = ''looks things up'', schema = (),
              call = (\<lambda>input. Inr ''found'')\<rparr>"

definition faulty :: "unit tool" where
  "faulty = \<lparr>name = ''faulty'', description = ''always fails'', schema = (),
              call = (\<lambda>input. Inl (JsError ''Error'' ''tool failed''))\<rparr>"

definition demo_assistant :: assistant_entity where
  "demo_assistant = \<lparr>assistant_id = ''a1'', credential = Some ''cred1'', details = ''details-1''\<rparr>"

definition demo_world :: "unit world" where
  "demo_world = \<lparr>
     findAssistant = (\<lambda>i. Inr (if i = Some ''a1'' then Some demo_assistant else None)),
     findChatMessage = (\<lambda>c. Inr (if c = Some ''chat-old''
                                    then Some \<lparr>cm_chatId = ''chat-old'', cm_sessionId = ''thread_old''\<rparr>
                                    else None)),
     getCredentialData = (\<lambda>c. Inr (if c = ''cred1'' then [(''openAIApiKey'', ''sk-demo'')] else [])),
     getCredentialParam = (\<lambda>k cd nd. map_of cd k),
     getUserHome = ''/home/demo'',
     JSON_parse = (\<lambda>s. if s = ''details-1'' then Inr (JObj [(''id'', JStr ''asst_1'')])
                         else if s = ''{}'' then Inr (JObj [])
                         else Inl (JsError ''SyntaxError'' ''Unexpected end of JSON input'')),
     zodToJsonSchema = (\<lambda>z. JObj [(''type'', JStr ''object'')]),
     base64 = (\<lambda>bytes. bytes),
     assistants_retrieve = (\<lambda>i. Inr \<lparr>ra_id = ''asst_1'',
                                        ra_tools = [AssistantTool ''code_interpreter'' None]\<rparr>),
     assistants_update = (\<lambda>i pushed. Inr ()),
     threads_create = Inr \<lparr>thread_id = ''thread_new''\<rparr>,
     threads_retrieve = (\<lambda>i. Inr \<lparr>thread_id = i\<rparr>),
     threads_del = (\<lambda>i. Inr ()),
     messages_create = (\<lambda>t c. Inr ()),
     runs_create = (\<lambda>t a. Inr \<lparr>run_id = ''run_1'', status = ''queued'', tool_calls = None\<rparr>),
     runs_submitToolOutputs = (\<lambda>t r outs. Inr ()),
     messages_list = (\<lambda>t. Inr (Some
        [\<lparr>role = ''assistant'',
          content = [MessageContentText ''Hello '', MessageContentText ''world'']\<rparr>,
         \<lparr>role = ''user'', content = [MessageContentText ''hi'']\<rparr>])),
     files_retrieve = (\<lambda>f. Inr \<lparr>file_id = f, filename = ''plot''\<rparr>),
     fetch = (\<lambda>url key. Inr \<lparr>ok = True, http_status = 200, body = ''PNG''\<rparr>)
   \<rparr>"

definition demo_nodeData :: "unit tools_item list option \<Rightarrow> unit node_data" where
  "demo_nodeData items = \<lparr>selectedAssistant = Some ''a1'', sessionId = None, tools = items\<rparr>"

definition report :: "string \<Rightarrow> tool_call list option \<Rightarrow> js_error + run_object" where
  "report s calls = Inr \<lparr>run_id = ''run_1'', status = s, tool_calls = calls\<rparr>"

definition demo_machine :: "(js_error + run_object) list \<Rightarrow> machine" where
  "demo_machine answers = \<lparr>files = Map.empty, polls = answers, inflight = [], usedTools = []\<rparr>"

text \<open>The remote assistant already has the calculator registered, with the schema the node
  derives for it.\<close>

definition calculatorTool :: assistant_tool where
  "calculatorTool = AssistantTool ''function''
     (Some (FunctionDef ''calculator'' ''adds numbers'' (JObj [(''type'', JStr ''object'')])))"

definition searchTool :: assistant_tool where
  "searchTool = AssistantTool ''function''
     (Some (FunctionDef ''search'' ''looks things up'' (JObj [(''type'', JStr ''object'')])))"

definition synced_world :: "unit world" where
  "synced_world = demo_world\<lparr>assistants_retrieve :=
     (\<lambda>i. Inr \<lparr>ra_id = ''asst_1'', ra_tools = [calculatorTool]\<rparr>)\<rparr>"

text \<open>The service reports the run in progress, then failed.\<close>

definition failing_machine :: machine where
  "failing_machine = demo_machine
     [report ''in_progress'' None, report ''failed'' None, report ''completed'' None]"

text \<open>Tool calls the service may ask for: the weather tool is not a local tool, the last two
  calls carry arguments that are not JSON.\<close>

definition calculator_call :: tool_call where
  "calculator_call = \<lparr>tc_id = ''call_1'', tc_name = ''calculator'', tc_arguments = ''{}''\<rparr>"

definition weather_call :: tool_call where
  "weather_call = \<lparr>tc_id = ''call_2'', tc_name = ''weather'', tc_arguments = ''{}''\<rparr>"


definition faulty_call :: tool_call where
  "faulty_call = \<lparr>tc_id = ''call_4'', tc_name = ''faulty'', tc_arguments = ''{}''\<rparr>"

definition malformed_call :: tool_call where
  "malformed_call = \<lparr>tc_id = ''call_5'', tc_name = ''calculator'', tc_arguments = ''{''\<rparr>"

definition garbled_call :: tool_call where
  "garbled_call = \<lparr>tc_id = ''call_6'', tc_name = ''weather'', tc_arguments = ''{''\<rparr>"

text \<open>The service asks for the given calls at the first poll and reports completion at the next.\<close>

definition asking :: "tool_call list \<Rightarrow> machine" where
  "asking calls = demo_machine [report ''requires_action'' (Some calls), report ''completed'' None]"

text \<open>Two local tools and three requested calls, two of which name a local tool.\<close>

definition two_tools :: "unit node_data" where
  "two_tools = demo_nodeData (Some [Tool calculator, ToolList [search]])"




definition with_faulty :: "unit node_data" where
  "with_faulty = demo_nodeData (Some [Tool calculator, Tool faulty])"

text \<open>Variations: a thread whose only message is the user's; a deletion that the service
  refuses; a credential without key; a stored session; an assistant nobody stored.\<close>

definition silent_world :: "unit world" where
  "silent_world = demo_world\<lparr>messages_list :=
     (\<lambda>t. Inr (Some [\<lparr>role = ''user'', content = [MessageContentText ''hi'']\<rparr>]))\<rparr>"

definition undeletable_world :: "unit world" where
  "undeletable_world = demo_world\<lparr>threads_del :=
     (\<lambda>i. Inl (JsError ''NotFoundError'' ''No thread found''))\<rparr>"

definition keyless_world :: "unit world" where
  "keyless_world = demo_world\<lparr>getCredentialData := (\<lambda>c. Inr [])\<rparr>"



definition session_nodeData :: "unit node_data" where
  "session_nodeData = \<lparr>selectedAssistant = Some ''a1'', sessionId = Some ''thread_old'',
                        tools = None\<rparr>"

definition unknown_nodeData :: "unit node_data" where
  "unknown_nodeData = \<lparr>selectedAssistant = Some ''a2'', sessionId = None, tools = None\<rparr>"

text \<open>The last assistant message carries an image whose download the service answers with
  status 500; in \<open>stale_machine\<close> the cache still holds a file of that name.\<close>

definition image_world :: "unit world" where
  "image_world = demo_world\<lparr>
     messages_list := (\<lambda>t. Inr (Some
        [\<lparr>role = ''assistant'',
          content = [MessageContentText ''Here is the plot: '', MessageContentImageFile ''file_1'']\<rparr>])),
     fetch := (\<lambda>url key. Inr \<lparr>ok = False, http_status = 500, body = []\<rparr>)\<rparr>"

definition stale_machine :: machine where
  "stale_machine = \<lparr>files = [''/home/demo/.flowise/openai-assistant/plot.png'' \<mapsto> ''OLD''],
                     polls = [report ''completed'' None], inflight = [], usedTools = []\<rparr>"

section \<open>Lemmas about the embedding\<close>

subsection \<open>Tool calls of a cycle\<close>

lemma matched_Nil: "matched ts [] = []"
  by (simp add: matched_def map_filter_simps)

lemma matched_Cons:
  "matched ts (a # as) =
     (case find (\<lambda>t. name t = act_tool a) ts of
        None \<Rightarrow> matched ts as
      | Some t \<Rightarrow> (t, a) # matched ts as)"
  by (simp add: matched_def map_filter_simps split: option.splits)

lemma invokeTools_frame:
  "invokeTools ts as outs m = (es, r, m') \<Longrightarrow>
     polls m' = polls m \<and> files m' = files m \<and> inflight m' = inflight m
     \<and> (\<exists>U. usedTools m' = usedTools m @ U)
     \<and> (\<forall>ev \<in> set es. \<exists>n j. ev = ToolCall n j) \<and> r \<noteq> Stalled \<and> r \<noteq> Polling"
proof (induction as arbitrary: outs m es)
  case Nil
  then show ?case by (auto simp: ret_def)
next
  case (Cons a as)
  show ?case
  proof (cases "find (\<lambda>t. name t = act_tool a) ts")
    case None
    with Cons show ?thesis by simp
  next
    case (Some t)
    show ?thesis
    proof (cases "call t (act_toolInput a)")
      case (Inl e)
      with Cons.prems Some show ?thesis
        by (auto simp: andThen_def await_def)
    next
      case (Inr out)
      with Cons.prems Some obtain es' where
        rest: "invokeTools ts as (outs @ [\<lparr>out_tool_call_id = act_toolCallId a, out_output = out\<rparr>])
                 (m\<lparr>usedTools := usedTools m @ [\<lparr>ut_tool = name t, ut_toolInput = act_toolInput a,
                                 ut_toolOutput = out\<rparr>]\<rparr>) = (es', r, m')"
        and es: "es = ToolCall (name t) (act_toolInput a) # es'"
        by (auto simp: andThen_def await_def pushUsedTool_def split: prod.splits)
      from Cons.IH [OF rest] es show ?thesis by auto
    qed
  qed
qed

lemma invokeTools_returned:
  "invokeTools ts as outs m = (es, Returned outs', m') \<Longrightarrow>
     \<exists>results. allSucceed (matched ts as) results
       \<and> es = toolCallEvents (matched ts as)
       \<and> outs' = outs @ toolOutputs (matched ts as) results
       \<and> usedTools m' = usedTools m @ usedToolRecords (matched ts as) results"
proof (induction as arbitrary: outs m es)
  case Nil
  then show ?case
    by (auto simp: ret_def matched_Nil allSucceed_def toolCallEvents_def toolOutputs_def
        usedToolRecords_def)
next
  case (Cons a as)
  show ?case
  proof (cases "find (\<lambda>t. name t = act_tool a) ts")
    case None
    with Cons show ?thesis by (simp add: matched_Cons)
  next
    case (Some t)
    show ?thesis
    proof (cases "call t (act_toolInput a)")
      case (Inl e)
      with Cons.prems Some show ?thesis
        by (auto simp: andThen_def await_def)
    next
      case (Inr out)
      with Cons.prems Some obtain es' where
        rest: "invokeTools ts as (outs @ [\<lparr>out_tool_call_id = act_toolCallId a, out_output = out\<rparr>])
                 (m\<lparr>usedTools := usedTools m @ [\<lparr>ut_tool = name t, ut_toolInput = act_toolInput a,
                                 ut_toolOutput = out\<rparr>]\<rparr>) = (es', Returned outs', m')"
        and es: "es = ToolCall (name t) (act_toolInput a) # es'"
        by (auto simp: andThen_def await_def pushUsedTool_def split: prod.splits)
      from Cons.IH [OF rest] obtain results where
        r: "allSucceed (matched ts as) results" "es' = toolCallEvents (matched ts as)"
           "outs' = (outs @ [\<lparr>out_tool_call_id = act_toolCallId a, out_output = out\<rparr>])
                    @ toolOutputs (matched ts as) results"
           "usedTools m' = (usedTools m @ [\<lparr>ut_tool = name t, ut_toolInput = act_toolInput a,
                                 ut_toolOutput = out\<rparr>]) @ usedToolRecords (matched ts as) results"
        by auto
      show ?thesis
        apply (rule exI [of _ "out # results"])
        using r es Some Inr
        by (simp add: matched_Cons allSucceed_def toolCallEvents_def toolOutputs_def
            usedToolRecords_def)
    qed
  qed
qed

lemma submitRequiredAction_parse_error:
  "parseActions w calls = Inl e \<Longrightarrow>
     submitRequiredAction w ts threadId runId state calls m = ([], Threw e, m)"
  by (simp add: submitRequiredAction_def andThen_def lift_def)

lemma submitRequiredAction_frame:
  assumes "submitRequiredAction w ts threadId runId state calls m = (es, r, m')"
  shows "polls m' = polls m \<and> files m' = files m \<and> inflight m' = inflight m
     \<and> (\<exists>U. usedTools m' = usedTools m @ U)
     \<and> list_all polling_event es \<and> r \<noteq> Stalled \<and> r \<noteq> Polling
     \<and> (\<forall>t. r = Returned t \<longrightarrow> t = Resolved state \<or> (\<exists>e. t = Rejected e))"
proof (cases "parseActions w calls")
  case (Inl e)
  with assms show ?thesis by (auto simp: submitRequiredAction_parse_error)
next
  case (Inr actions)
  obtain es1 r1 m1 where inv: "invokeTools ts actions [] m = (es1, r1, m1)"
    by (metis prod_cases3)
  from invokeTools_frame [OF inv] have
    f: "polls m1 = polls m" "files m1 = files m" "inflight m1 = inflight m"
       "\<exists>U. usedTools m1 = usedTools m @ U"
       "r1 \<noteq> Stalled" "r1 \<noteq> Polling" and ev: "list_all polling_event es1"
    by (auto simp: list_all_iff)
  from assms Inr inv f ev show ?thesis
    by (cases r1)
       (auto simp: submitRequiredAction_def andThen_def lift_def await_def ret_def
             split: if_splits sum.splits)
qed

lemma intervalCallback_frame:
  "intervalCallback w ts threadId runId answer m = (es, t, m') \<Longrightarrow>
     polls m' = polls m \<and> files m' = files m \<and> inflight m' = inflight m
     \<and> (\<exists>U. usedTools m' = usedTools m @ U)
     \<and> list_all polling_event es \<and> (t = Pending \<longrightarrow> m' = m)
     \<and> (\<forall>s. t = Resolved s \<longrightarrow> s = ''completed'' \<or> s = ''requires_action'')"
  by (auto simp: intervalCallback_def Let_def
      split: sum.splits if_splits option.splits prod.splits outcome.splits
      dest!: submitRequiredAction_frame)

subsection \<open>The callbacks do not read the machine\<close>

text \<open>What a callback logs and how it ends depends on the answer alone; on the machine it
  does nothing but append records to \<^verbatim>\<open>usedTools\<close>.\<close>

lemma invokeTools_uniform:
  "\<exists>es r U. \<forall>m. invokeTools ts as outs m = (es, r, m\<lparr>usedTools := usedTools m @ U\<rparr>)"
proof (induction as arbitrary: outs)
  case Nil
  show ?case
    by (intro exI [of _ "[]"] exI [of _ "Returned outs"]) (simp add: ret_def)
next
  case (Cons a as)
  show ?case
  proof (cases "find (\<lambda>t. name t = act_tool a) ts")
    case None
    with Cons [of outs] show ?thesis by simp
  next
    case (Some t)
    show ?thesis
    proof (cases "call t (act_toolInput a)")
      case (Inl e)
      with Some show ?thesis
        by (intro exI [of _ "[ToolCall (name t) (act_toolInput a)]"] exI [of _ "Threw e"]
            exI [of _ "[]"]) (simp add: andThen_def await_def)
    next
      case (Inr out)
      let ?u = "\<lparr>ut_tool = name t, ut_toolInput = act_toolInput a, ut_toolOutput = out\<rparr>"
      from Cons [of "outs @ [\<lparr>out_tool_call_id = act_toolCallId a, out_output = out\<rparr>]"]
      obtain es r U where
        "\<forall>m. invokeTools ts as (outs @ [\<lparr>out_tool_call_id = act_toolCallId a, out_output = out\<rparr>]) m
               = (es, r, m\<lparr>usedTools := usedTools m @ U\<rparr>)"
        by blast
      with Some Inr show ?thesis
        by (intro exI [of _ "ToolCall (name t) (act_toolInput a) # es"] exI [of _ r]
            exI [of _ "?u # U"]) (simp add: andThen_def await_def pushUsedTool_def)
    qed
  qed
qed

lemma submitRequiredAction_uniform:
  "\<exists>es r U. \<forall>m. submitRequiredAction w ts threadId runId state calls m
                   = (es, r, m\<lparr>usedTools := usedTools m @ U\<rparr>)"
proof (cases "parseActions w calls")
  case (Inl e)
  then show ?thesis
    by (intro exI [of _ "[]"] exI [of _ "Threw e"] exI [of _ "[]"])
       (simp add: submitRequiredAction_parse_error)
next
  case (Inr actions)
  from invokeTools_uniform [of ts actions "[]"] obtain es r U where
    inv: "\<forall>m. invokeTools ts actions [] m = (es, r, m\<lparr>usedTools := usedTools m @ U\<rparr>)"
    by blast
  show ?thesis
  proof (cases r)
    case (Returned outs)
    show ?thesis
    proof (cases "outs = []")
      case True
      with Inr inv Returned show ?thesis
        by (intro exI [of _ es] exI [of _ "Returned (Rejected (new_Error
              (''Error processing thread: '' @ state @ '', Thread ID: '' @ threadId
               @ '', Run ID: '' @ runId @ ''. submit_tool_outputs.tool_calls are empty'')))"]
            exI [of _ U])
           (simp add: submitRequiredAction_def andThen_def lift_def ret_def)
    next
      case False
      with Inr inv Returned show ?thesis
        by (intro exI [of _ "es @ [SubmitToolOutputs threadId runId outs]"]
            exI [of _ "case runs_submitToolOutputs w threadId runId outs of
                         Inl e \<Rightarrow> Threw e | Inr _ \<Rightarrow> Returned (Resolved state)"]
            exI [of _ U])
           (simp add: submitRequiredAction_def andThen_def lift_def ret_def await_def
              split: sum.splits)
    qed
  qed (use Inr inv in \<open>auto simp: submitRequiredAction_def andThen_def lift_def\<close>)
qed

lemma intervalCallback_uniform:
  "\<exists>es t U. \<forall>m. intervalCallback w ts threadId runId answer m
                   = (es, t, m\<lparr>usedTools := usedTools m @ U\<rparr>)"
proof (cases answer)
  case (Inl e)
  then show ?thesis
    by (intro exI [of _ "[RunsRetrieve threadId runId, UncaughtInCallback e]"]
        exI [of _ Pending] exI [of _ "[]"]) (simp add: intervalCallback_def)
next
  case (Inr ro)
  show ?thesis
  proof (cases "status ro = ''requires_action'' \<and> tool_calls ro \<noteq> None")
    case True
    then obtain calls where calls: "tool_calls ro = Some calls" by auto
    from submitRequiredAction_uniform [of w ts threadId runId "''requires_action''" calls]
    obtain es r U where
      sub: "\<forall>m. submitRequiredAction w ts threadId runId ''requires_action'' calls m
                = (es, r, m\<lparr>usedTools := usedTools m @ U\<rparr>)"
      by blast
    from Inr True calls sub show ?thesis
      by (cases r) (auto simp: intervalCallback_def)
  next
    case False
    with Inr show ?thesis
      by (intro exI [of _ "fst (intervalCallback w ts threadId runId answer undefined)"]
          exI [of _ "fst (snd (intervalCallback w ts threadId runId answer undefined))"]
          exI [of _ "[]"])
         (auto simp: intervalCallback_def Let_def split: option.splits)
  qed
qed

lemma concat_replicate_Suc:
  "concat (replicate (Suc j) xs) = concat (replicate j xs) @ xs"
  by (induction j) simp_all

lemma lateCallbacks_same:
  assumes "\<forall>m. intervalCallback w ts threadId runId answer m
               = (es, t, m\<lparr>usedTools := usedTools m @ U\<rparr>)"
  shows "lateCallbacks w ts threadId runId answer k t m
           = (concat (replicate k es), t, m\<lparr>usedTools := usedTools m @ concat (replicate k U)\<rparr>)"
  using assms by (induction k arbitrary: m) simp_all

lemma callbacks_same:
  assumes "\<forall>m. intervalCallback w ts threadId runId answer m
               = (es, t, m\<lparr>usedTools := usedTools m @ U\<rparr>)"
    and "k = (case inflight m of [] \<Rightarrow> 0 | k # _ \<Rightarrow> k)"
  shows "callbacks w ts threadId runId answer m =
           (if t = Pending
            then (es, Pending, m\<lparr>inflight := tl (inflight m), usedTools := usedTools m @ U\<rparr>)
            else (es @ concat (replicate k es), t,
                  m\<lparr>inflight := tl (inflight m),
                    usedTools := usedTools m @ U @ concat (replicate k U)\<rparr>))"
  using assms(2) by (simp add: callbacks_def assms(1) lateCallbacks_same [OF assms(1)])

lemma callbacks_alone:
  "(case inflight m of [] \<Rightarrow> 0 | k # _ \<Rightarrow> k) = 0 \<Longrightarrow>
     callbacks w ts threadId runId answer m
       = intervalCallback w ts threadId runId answer (m\<lparr>inflight := tl (inflight m)\<rparr>)"
  by (simp add: callbacks_def split: prod.splits)

text \<open>The last of the callbacks set off by an answer: it ends like the first.\<close>

lemma callbacks_last:
  assumes "callbacks w ts threadId runId answer m = (es, t, m')"
  shows "\<exists>esb mb esa. intervalCallback w ts threadId runId answer mb = (esa, t, m')
           \<and> es = esb @ esa \<and> list_all polling_event esb
           \<and> files mb = files m \<and> polls mb = polls m \<and> (\<exists>U. usedTools mb = usedTools m @ U)"
proof -
  from intervalCallback_uniform [of w ts threadId runId answer] obtain es0 t0 U where
    cb: "\<forall>m. intervalCallback w ts threadId runId answer m
              = (es0, t0, m\<lparr>usedTools := usedTools m @ U\<rparr>)"
    by blast
  then have "intervalCallback w ts threadId runId answer m
              = (es0, t0, m\<lparr>usedTools := usedTools m @ U\<rparr>)" by simp
  from intervalCallback_frame [OF this] have ev: "list_all polling_event es0" by simp
  define k where "k = (case inflight m of [] \<Rightarrow> 0 | k # _ \<Rightarrow> k)"
  note c = callbacks_same [OF cb k_def, unfolded assms]
  show ?thesis
  proof (cases "t0 = Pending \<or> k = 0")
    case True
    with c cb show ?thesis
      by (intro exI [of _ "[]"] exI [of _ "m\<lparr>inflight := tl (inflight m)\<rparr>"] exI [of _ es0])
         (auto split: if_splits)
  next
    case False
    then obtain j where j: "k = Suc j" by (cases k) auto
    let ?mb = "m\<lparr>inflight := tl (inflight m),
                  usedTools := usedTools m @ U @ concat (replicate j U)\<rparr>"
    from False c j have
      "es = (es0 @ concat (replicate j es0)) @ es0" "t = t0"
      "m' = m\<lparr>inflight := tl (inflight m),
               usedTools := usedTools m @ U @ concat (replicate j U) @ U\<rparr>"
      by (simp_all add: concat_replicate_Suc del: replicate.simps)
    moreover from ev have "list_all polling_event (es0 @ concat (replicate j es0))"
      by (induction j) simp_all
    ultimately show ?thesis
      using cb
      by (intro exI [of _ "es0 @ concat (replicate j es0)"] exI [of _ ?mb] exI [of _ es0]) simp
  qed
qed

lemma callbacks_frame:
  assumes "callbacks w ts threadId runId answer m = (es, t, m')"
  shows "polls m' = polls m \<and> files m' = files m \<and> inflight m' = tl (inflight m)
     \<and> (\<exists>U. usedTools m' = usedTools m @ U)
     \<and> list_all polling_event es
     \<and> (\<forall>s. t = Resolved s \<longrightarrow> s = ''completed'' \<or> s = ''requires_action'')"
proof -
  from intervalCallback_uniform [of w ts threadId runId answer] obtain es0 t0 U where
    cb: "\<forall>m. intervalCallback w ts threadId runId answer m
              = (es0, t0, m\<lparr>usedTools := usedTools m @ U\<rparr>)"
    by blast
  then have "intervalCallback w ts threadId runId answer m
              = (es0, t0, m\<lparr>usedTools := usedTools m @ U\<rparr>)" by simp
  note f = intervalCallback_frame [OF this]
  define k where "k = (case inflight m of [] \<Rightarrow> 0 | k # _ \<Rightarrow> k)"
  have "list_all polling_event (concat (replicate k es0))"
    using f by (induction k) simp_all
  with callbacks_same [OF cb k_def, unfolded assms] f show ?thesis
    by (auto split: if_splits)
qed

lemma callbacks_polls:
  "callbacks w ts threadId runId answer (m\<lparr>polls := p\<rparr>) =
     (case callbacks w ts threadId runId answer m of (es, t, m') \<Rightarrow> (es, t, m'\<lparr>polls := p\<rparr>))"
proof -
  from intervalCallback_uniform [of w ts threadId runId answer] obtain es0 t0 U where
    cb: "\<forall>m. intervalCallback w ts threadId runId answer m
              = (es0, t0, m\<lparr>usedTools := usedTools m @ U\<rparr>)"
    by blast
  show ?thesis
    by (simp add: callbacks_same [OF cb refl])
qed

subsection \<open>The polling loop\<close>

lemma ticks_drive:
  "ticks w ts threadId runId answers m = (es, r, m') \<Longrightarrow>
   drive w ts threadId runId answers m =
     (case r of
        Returned s \<Rightarrow>
          if s = ''requires_action''
          then (case drive w ts threadId runId (polls m') m' of (es', r') \<Rightarrow> (es @ es', r'))
          else (es, r, m')
      | _ \<Rightarrow> (es, r, m'))"
proof (induction answers arbitrary: m es)
  case Nil
  then show ?case by auto
next
  case (Cons a answers)
  obtain esa t m1 where cb: "callbacks w ts threadId runId a m = (esa, t, m1)"
    by (metis prod_cases3)
  show ?case
  proof (cases t)
    case Pending
    with Cons.prems cb obtain es' where
      rest: "ticks w ts threadId runId answers m1 = (es', r, m')" and es: "es = esa @ es'"
      by (auto split: prod.splits)
    from Cons.IH [OF rest] cb Pending es show ?thesis
      by (auto split: outcome.splits prod.splits)
  qed (use Cons.prems cb in \<open>auto split: prod.splits\<close>)
qed

lemma pollingLoop_drive:
  "pollingLoop w ts threadId runId m = drive w ts threadId runId (polls m) m"
proof (induction w ts threadId runId m rule: pollingLoop.induct)
  case (1 w ts threadId runId m)
  obtain es r m' where p: "promise w ts threadId runId m = (es, r, m')"
    by (metis prod_cases3)
  then have t: "ticks w ts threadId runId (polls m) m = (es, r, m')"
    by (simp add: promise_def)
  show ?case
  proof (cases "r = Returned ''requires_action''")
    case True
    with "1.IH" [OF p [symmetric]] have
      "pollingLoop w ts threadId runId m' = drive w ts threadId runId (polls m') m'"
      by simp
    with p True ticks_drive [OF t] show ?thesis
      by (subst pollingLoop.simps) simp
  next
    case False
    with p ticks_drive [OF t] show ?thesis
      by (subst pollingLoop.simps) (auto split: outcome.splits)
  qed
qed

lemma drive_frame:
  "drive w ts threadId runId answers m = (es, r, m') \<Longrightarrow>
     files m' = files m \<and> (\<exists>U. usedTools m' = usedTools m @ U) \<and> list_all polling_event es
     \<and> length (polls m') \<le> length answers
     \<and> (answers \<noteq> [] \<longrightarrow> length (polls m') < length answers)
     \<and> (\<forall>s. r = Returned s \<longrightarrow> s = ''completed'')"
proof (induction answers arbitrary: m es)
  case Nil
  then show ?case by auto
next
  case (Cons a answers)
  obtain esa t m1 where cb: "callbacks w ts threadId runId a m = (esa, t, m1)"
    by (metis prod_cases3)
  note f = callbacks_frame [OF cb]
  show ?case
  proof (cases "continues t")
    case True
    define m2 where "m2 = (if t = Pending then m1 else m1\<lparr>polls := answers\<rparr>)"
    from True Cons.prems cb obtain es' where
      rest: "drive w ts threadId runId answers m2 = (es', r, m')" and es: "es = esa @ es'"
      by (auto simp: continues_def m2_def split: prod.splits)
    from Cons.IH [OF rest] f es show ?thesis
      by (auto simp: m2_def split: if_splits)
  next
    case False
    with Cons.prems cb f show ?thesis
      by (cases t) (auto simp: continues_def)
  qed
qed

lemma drive_consumed:
  "drive w ts threadId runId answers m = (es, r, m') \<Longrightarrow> answers = pre @ a # post \<Longrightarrow>
   length (polls m') \<le> length post \<Longrightarrow>
   \<exists>es0 m0 esa t ma es1.
     intervalCallback w ts threadId runId a m0 = (esa, t, ma) \<and> es = es0 @ esa @ es1
     \<and> list_all polling_event es0
     \<and> files m0 = files m \<and> (\<exists>U. usedTools m0 = usedTools m @ U)
     \<and> (\<exists>U. usedTools m' = usedTools ma @ U)
     \<and> (\<not> continues t \<longrightarrow> polls m' = post \<and> es1 = [] \<and> r = settle t)
     \<and> (continues t \<and> polls m' = post \<longrightarrow> es1 = [] \<and> r = Polling)"
proof (induction pre arbitrary: answers m es)
  case Nil
  obtain esc t m1 where cb: "callbacks w ts threadId runId a m = (esc, t, m1)"
    by (metis prod_cases3)
  note f = callbacks_frame [OF cb]
  from callbacks_last [OF cb] obtain esb mb esa where
    l: "intervalCallback w ts threadId runId a mb = (esa, t, m1)" "esc = esb @ esa"
       "list_all polling_event esb" "files mb = files m" "\<exists>U. usedTools mb = usedTools m @ U"
    by blast
  show ?case
  proof (cases "continues t")
    case True
    define m2 where "m2 = (if t = Pending then m1 else m1\<lparr>polls := post\<rparr>)"
    from True Nil cb obtain es' where
      rest: "drive w ts threadId runId post m2 = (es', r, m')" and es: "es = esc @ es'"
      by (auto simp: continues_def m2_def split: prod.splits)
    note g = drive_frame [OF rest]
    have last: "es' = [] \<and> r = Polling" if "polls m' = post"
    proof -
      from g that have "post = []" by auto
      with rest show ?thesis by simp
    qed
    from g have "\<exists>U. usedTools m' = usedTools m1 @ U"
      by (auto simp: m2_def split: if_splits)
    with l es True last show ?thesis
      by (intro exI [of _ esb] exI [of _ mb] exI [of _ esa] exI [of _ t] exI [of _ m1]
          exI [of _ es']) simp
  next
    case False
    with Nil cb have "polls m' = post \<and> es = esc \<and> r = settle t \<and> usedTools m' = usedTools m1"
      by (cases t) (auto simp: continues_def)
    with l False show ?thesis
      by (intro exI [of _ esb] exI [of _ mb] exI [of _ esa] exI [of _ t] exI [of _ m1]
          exI [of _ "[]"]) simp
  qed
next
  case (Cons x pre)
  obtain esx tx m1 where cb: "callbacks w ts threadId runId x m = (esx, tx, m1)"
    by (metis prod_cases3)
  note f = callbacks_frame [OF cb]
  let ?rest = "pre @ a # post"
  show ?case
  proof (cases "continues tx")
    case True
    define m2 where "m2 = (if tx = Pending then m1 else m1\<lparr>polls := ?rest\<rparr>)"
    from True Cons.prems cb obtain es' where
      rest: "drive w ts threadId runId ?rest m2 = (es', r, m')" and es: "es = esx @ es'"
      by (auto simp: continues_def m2_def split: prod.splits)
    from Cons.IH [OF rest refl Cons.prems(3)] obtain es0 m0 esa t ma es1 where
      h: "intervalCallback w ts threadId runId a m0 = (esa, t, ma)" "es' = es0 @ esa @ es1"
         "list_all polling_event es0"
         "files m0 = files m2" "\<exists>U. usedTools m0 = usedTools m2 @ U"
         "\<exists>U. usedTools m' = usedTools ma @ U"
         "\<not> continues t \<longrightarrow> polls m' = post \<and> es1 = [] \<and> r = settle t"
         "continues t \<and> polls m' = post \<longrightarrow> es1 = [] \<and> r = Polling"
      by blast
    from f h(4,5) have "files m0 = files m" "\<exists>U. usedTools m0 = usedTools m @ U"
      by (auto simp: m2_def split: if_splits)
    with h es f show ?thesis
      by (intro exI [of _ "esx @ es0"] exI [of _ m0] exI [of _ esa] exI [of _ t] exI [of _ ma]
          exI [of _ es1]) simp
  next
    case False
    with Cons.prems cb have "polls m' = ?rest"
      by (cases tx) (auto simp: continues_def)
    with Cons.prems(3) show ?thesis by simp
  qed
qed

subsection \<open>Computations that leave the machine alone\<close>

lemma quiet_ret: "quiet P (ret x)"
  by (auto simp: quiet_def ret_def)

lemma quiet_lift: "quiet P (lift x)"
  by (auto simp: quiet_def lift_def split: sum.splits)

lemma quiet_await: "P ev \<Longrightarrow> quiet P (await ev x)"
  by (auto simp: quiet_def await_def split: sum.splits)

lemma quiet_andThen: "quiet P p \<Longrightarrow> (\<And>x. quiet P (f x)) \<Longrightarrow> quiet P (andThen p f)"
  unfolding quiet_def andThen_def
  by (fastforce split: prod.splits outcome.splits)

lemma quiet_syncTools: "quiet prepare_event (syncTools w aid ra fts)"
  by (simp add: syncTools_def Let_def quiet_await quiet_ret)

lemma quiet_selectThread: "quiet prepare_event (selectThread w opts)"
  unfolding selectThread_def
  by (intro quiet_andThen quiet_await)
     (auto intro!: quiet_andThen quiet_await quiet_ret split: option.splits)

lemma quiet_prepare: "quiet prepare_event (prepare w fts a input opts)"
  unfolding prepare_def
  by (intro quiet_andThen quiet_lift quiet_await quiet_ret quiet_syncTools quiet_selectThread)
     simp_all

lemma prepare_frame:
  "prepare w fts a input opts m = (es, r, m') \<Longrightarrow>
     m' = m \<and> list_all prepare_event es \<and> r \<noteq> Stalled \<and> r \<noteq> Polling"
  using quiet_prepare [of w fts a input opts] unfolding quiet_def by blast

subsection \<open>Responding\<close>

lemma downloadFile_frame:
  "downloadFile w fileObj filePath dirPath key m = (es, r, m') \<Longrightarrow>
     r = Returned () \<and> polls m' = polls m \<and> usedTools m' = usedTools m
     \<and> list_all respond_event es"
proof (cases "fetch w (''https://api.openai.com/v1/files/'' @ file_id fileObj @ ''/content'') key")
  case (Inl e)
  assume "downloadFile w fileObj filePath dirPath key m = (es, r, m')"
  with Inl show ?thesis
    by (auto simp: downloadFile_def tryCatch_def andThen_def await_def emit_def)
next
  case (Inr response)
  assume "downloadFile w fileObj filePath dirPath key m = (es, r, m')"
  with Inr show ?thesis
    by (cases "ok response")
       (auto simp: downloadFile_def tryCatch_def andThen_def await_def emit_def throw_def
          writeFile_def)
qed

lemma renderContent_frame:
  "renderContent w key parts rv m = (es, r, m') \<Longrightarrow>
     polls m' = polls m \<and> usedTools m' = usedTools m \<and> list_all respond_event es
     \<and> r \<noteq> Stalled \<and> r \<noteq> Polling"
proof (induction parts arbitrary: rv m es)
  case Nil
  then show ?case by (auto simp: ret_def)
next
  case (Cons p parts)
  show ?case
  proof (cases p)
    case (MessageContentText v)
    with Cons show ?thesis by simp
  next
    case (MessageContentImageFile fileId)
    show ?thesis
    proof (cases "files_retrieve w fileId")
      case (Inl e)
      with Cons.prems MessageContentImageFile show ?thesis
        by (auto simp: andThen_def await_def)
    next
      case (Inr fileObj)
      let ?dir = "path_join [getUserHome w, ''.flowise'', ''openai-assistant'']"
      let ?path = "path_join [getUserHome w, ''.flowise'', ''openai-assistant'',
                              filename fileObj @ ''.png'']"
      obtain esd rd md where d: "downloadFile w fileObj ?path ?dir key m = (esd, rd, md)"
        by (metis prod_cases3)
      note fd = downloadFile_frame [OF d]
      show ?thesis
      proof (cases "files md ?path")
        case None
        with Cons.prems MessageContentImageFile Inr d fd show ?thesis
          by (auto simp: andThen_def await_def readFileSync_def Let_def)
      next
        case (Some bitmap)
        with Cons.prems MessageContentImageFile Inr d fd obtain es' where
          rest: "renderContent w key parts (rv @ imgHTML (base64 w bitmap) (filename fileObj)) md
                 = (es', r, m')"
          and es: "es = FilesRetrieve fileId # esd @ ReadFile ?path # es'"
          by (auto simp: andThen_def await_def readFileSync_def Let_def split: prod.splits)
        from Cons.IH [OF rest] fd es show ?thesis by auto
      qed
    qed
  qed
qed

lemma respond_cases:
  assumes "respond w key aid tid rt m = (es, r, m')"
  shows "\<exists>es'. es = MessagesList tid # es' \<and> list_all respond_event es'
           \<and> polls m' = polls m \<and> usedTools m' = usedTools m \<and> r \<noteq> Stalled \<and> r \<noteq> Polling
           \<and> (\<forall>v. r = Returned v \<longrightarrow>
                 (\<exists>ms. messages_list w tid = Inr ms
                    \<and> (if assistantMessages ms = [] then v = ReturnedString []
                        else \<exists>text. v = ReturnedObject
                               \<lparr>out_text = text, out_usedTools = usedTools m,
                                out_assistantId = aid, out_threadId = tid,
                                out_runId = run_id rt, out_messages = messageData ms\<rparr>)))"
proof (cases "messages_list w tid")
  case (Inl e)
  with assms show ?thesis
    by (auto simp: respond_def andThen_def await_def)
next
  case (Inr ms)
  show ?thesis
  proof (cases "assistantMessages ms")
    case Nil
    with assms Inr show ?thesis
      by (auto simp: respond_def andThen_def await_def ret_def Let_def assistantMessages_def
          messageData_def)
  next
    case (Cons first rest)
    obtain esr rr mr where rc: "renderContent w key (content first) [] m = (esr, rr, mr)"
      by (metis prod_cases3)
    note f = renderContent_frame [OF rc]
    from assms Inr Cons rc f show ?thesis
      by (cases rr)
         (auto simp: respond_def andThen_def await_def ret_def Let_def assistantMessages_def
          messageData_def)
  qed
qed

subsection \<open>The shape of an invocation\<close>

lemma runAssistant_cases [consumes 1, case_names unprepared unfinished responded]:
  assumes "runAssistant w ts fts a key input opts m = (es, r, m')"
  obtains
    (unprepared) e where
      "prepare w fts a input opts m = (es, Threw e, m)" "r = Threw (new_Error_of e)" "m' = m"
  | (unfinished) es1 aid tid rt es2 r2 where
      "prepare w fts a input opts m = (es1, Returned (aid, tid, rt), m)"
      "pollingLoop w ts tid (run_id rt) (m\<lparr>usedTools := []\<rparr>) = (es2, r2, m')"
      "es = es1 @ es2"
      "r2 = Stalled \<and> r = Stalled \<or> r2 = Polling \<and> r = Polling
       \<or> (\<exists>e. r2 = Threw e \<and> r = Threw (new_Error_of e))"
  | (responded) es1 aid tid rt es2 s m2 es3 r3 where
      "prepare w fts a input opts m = (es1, Returned (aid, tid, rt), m)"
      "pollingLoop w ts tid (run_id rt) (m\<lparr>usedTools := []\<rparr>) = (es2, Returned s, m2)"
      "respond w key aid tid rt m2 = (es3, r3, m')"
      "es = es1 @ es2 @ es3"
      "r = (case r3 of Threw e \<Rightarrow> Threw (new_Error_of e) | _ \<Rightarrow> r3)"
proof -
  obtain es1 r1 m1 where p: "prepare w fts a input opts m = (es1, r1, m1)"
    by (metis prod_cases3)
  note fp = prepare_frame [OF p]
  show ?thesis
  proof (cases r1)
    case (Returned x)
    obtain aid tid rt where x: "x = (aid, tid, rt)" by (metis prod_cases3)
    obtain es2 r2 m2 where l: "pollingLoop w ts tid (run_id rt) (m\<lparr>usedTools := []\<rparr>) = (es2, r2, m2)"
      by (metis prod_cases3)
    show ?thesis
    proof (cases r2)
      case (Returned s)
      obtain es3 r3 m3 where rs: "respond w key aid tid rt m2 = (es3, r3, m3)"
        by (metis prod_cases3)
      from assms p fp \<open>r1 = Returned x\<close> x l Returned rs
      have "es = es1 @ es2 @ es3 \<and> m' = m3
            \<and> r = (case r3 of Threw e \<Rightarrow> Threw (new_Error_of e) | _ \<Rightarrow> r3)"
        by (auto simp: runAssistant_def tryCatch_def andThen_def ret_def throw_def
            split: outcome.splits)
      with p fp \<open>r1 = Returned x\<close> x l Returned rs show ?thesis
        by (intro responded [of es1 aid tid rt es2 s m2 es3 r3]) auto
    next
      case (Threw e)
      with assms p fp \<open>r1 = Returned x\<close> x l show ?thesis
        by (intro unfinished [of es1 aid tid rt es2 r2])
           (auto simp: runAssistant_def tryCatch_def andThen_def ret_def throw_def)
    next
      case Stalled
      with assms p fp \<open>r1 = Returned x\<close> x l show ?thesis
        by (intro unfinished [of es1 aid tid rt es2 r2])
           (auto simp: runAssistant_def tryCatch_def andThen_def ret_def throw_def)
    next
      case Polling
      with assms p fp \<open>r1 = Returned x\<close> x l show ?thesis
        by (intro unfinished [of es1 aid tid rt es2 r2])
           (auto simp: runAssistant_def tryCatch_def andThen_def ret_def throw_def)
    qed
  next
    case (Threw e)
    with assms p fp show ?thesis
      by (intro unprepared [of e])
         (auto simp: runAssistant_def tryCatch_def andThen_def throw_def)
  qed (use fp in auto)
qed

lemma run_resolved:
  "resolved w nd a key \<Longrightarrow>
   run w nd input opts m =
     (case runAssistant w (flatten (tools nd))
             (map (formatToOpenAIAssistantTool w) (flatten (tools nd))) a key input opts m of
        (es', r) \<Rightarrow> (resolveEvents nd a @ es', r))"
  by (auto simp: resolved_def run_def resolveEvents_def Let_def andThen_def await_def
      split: prod.splits sum.splits)

lemma run_cases [consumes 1, case_names unresolved running]:
  assumes "run w nd input opts m = (es, r, m')"
  obtains
    (unresolved) e where "r = Threw e" "m' = m" "list_all resolve_event es"
  | (running) a key es' where
      "resolved w nd a key"
      "runAssistant w (flatten (tools nd))
         (map (formatToOpenAIAssistantTool w) (flatten (tools nd))) a key input opts m
       = (es', r, m')"
      "es = resolveEvents nd a @ es'"
proof (cases "\<exists>a key. resolved w nd a key")
  case True
  then obtain a key where res: "resolved w nd a key" by blast
  from assms run_resolved [OF res, of input opts m] show ?thesis
    by (auto split: prod.splits intro: running [OF res])
next
  case False
  show ?thesis
  proof (cases "findAssistant w (selectedAssistant nd)")
    case (Inl e)
    with assms show ?thesis
      by (intro unresolved [of e]) (auto simp: run_def Let_def andThen_def await_def)
  next
    case (Inr found)
    show ?thesis
    proof (cases found)
      case None
      with assms Inr show ?thesis
        by (intro unresolved) (auto simp: run_def Let_def andThen_def await_def throw_def)
    next
      case (Some a)
      show ?thesis
      proof (cases "getCredentialData w (credentialOf a)")
        case (Inl e)
        with assms Inr Some show ?thesis
          by (intro unresolved [of e]) (auto simp: run_def Let_def andThen_def await_def)
      next
        case cd: (Inr cd)
        from False Inr Some cd have
          "getCredentialParam w ''openAIApiKey'' cd nd = None
           \<or> getCredentialParam w ''openAIApiKey'' cd nd = Some []"
          by (cases "getCredentialParam w ''openAIApiKey'' cd nd") (auto simp: resolved_def)
        with assms Inr Some cd show ?thesis
          by (intro unresolved) (auto simp: run_def Let_def andThen_def await_def throw_def)
      qed
    qed
  qed
qed

lemma pollingLoop_frame:
  "pollingLoop w ts threadId runId m = (es, r, m') \<Longrightarrow>
     files m' = files m \<and> list_all polling_event es \<and> length (polls m') \<le> length (polls m)
     \<and> (\<forall>s. r = Returned s \<longrightarrow> s = ''completed'')"
  using drive_frame [of w ts threadId runId "polls m" m es r m']
  unfolding pollingLoop_drive by blast

lemma run_events:
  assumes "run w nd input opts m = (es, r, m')"
  shows "\<exists>es0 es1 es2. es = es0 @ es1 @ es2 \<and> list_all resolve_event es0
           \<and> (es1 = [] \<or>
               (\<exists>a key r1. resolved w nd a key
                  \<and> prepare w (map (formatToOpenAIAssistantTool w) (flatten (tools nd))) a input
                       opts m = (es1, r1, m)))
           \<and> list_all (\<lambda>ev. polling_event ev \<or> respond_event ev) es2"
  using assms
proof (cases rule: run_cases)
  case (unresolved e)
  then show ?thesis
    by (intro exI [of _ es] exI [of _ "[]"]) simp
next
  case (running a key es')
  have res: "list_all resolve_event (resolveEvents nd a)"
    by (simp add: resolveEvents_def)
  from running(2) show ?thesis
  proof (cases rule: runAssistant_cases)
    case (unprepared e)
    with running res show ?thesis
      by (intro exI [of _ "resolveEvents nd a"] exI [of _ es'] exI [of _ "[]"]) auto
  next
    case (unfinished es1 aid tid rt es2 r2)
    from pollingLoop_frame [OF unfinished(2)] have "list_all polling_event es2" by simp
    then have "list_all (\<lambda>ev. polling_event ev \<or> respond_event ev) es2"
      by (simp add: list_all_iff)
    with running res unfinished show ?thesis
      by (intro exI [of _ "resolveEvents nd a"] exI [of _ es1] exI [of _ es2]) auto
  next
    case (responded es1 aid tid rt es2 s m2 es3 r3)
    from pollingLoop_frame [OF responded(2)] have "list_all polling_event es2" by simp
    moreover from respond_cases [OF responded(3)] have "list_all respond_event es3" by auto
    ultimately have "list_all (\<lambda>ev. polling_event ev \<or> respond_event ev) (es2 @ es3)"
      by (auto simp: list_all_iff)
    with running res responded show ?thesis
      by (intro exI [of _ "resolveEvents nd a"] exI [of _ es1] exI [of _ "es2 @ es3"]) auto
  qed
qed

lemma quiet_selectThread_no_update: "quiet (\<lambda>ev. \<not> is_update ev) (selectThread w opts)"
  unfolding selectThread_def
  by (intro quiet_andThen quiet_await)
     (auto intro!: quiet_andThen quiet_await quiet_ret split: option.splits)

lemma quiet_prepare_Nil: "quiet (\<lambda>ev. \<not> is_update ev) (prepare w [] a input opts)"
  unfolding prepare_def
  by (intro quiet_andThen quiet_lift quiet_await quiet_ret quiet_selectThread_no_update)
     (simp_all add: syncTools_def quiet_ret)

lemma no_update_other:
  "resolve_event ev \<Longrightarrow> \<not> is_update ev"
  "polling_event ev \<Longrightarrow> \<not> is_update ev"
  "respond_event ev \<Longrightarrow> \<not> is_update ev"
  by (cases ev; simp)+

lemma run_events_resolved:
  assumes "resolved w nd a key" and "run w nd input opts m = (es, r, m')"
  shows "\<exists>es1 r1 es2. es = resolveEvents nd a @ es1 @ es2
           \<and> prepare w (map (formatToOpenAIAssistantTool w) (flatten (tools nd))) a input opts m
               = (es1, r1, m)
           \<and> list_all (\<lambda>ev. polling_event ev \<or> respond_event ev) es2"
proof -
  obtain es' where ra: "runAssistant w (flatten (tools nd))
         (map (formatToOpenAIAssistantTool w) (flatten (tools nd))) a key input opts m
       = (es', r, m')" and es: "es = resolveEvents nd a @ es'"
    using assms(2) run_resolved [OF assms(1), of input opts m]
    by (auto split: prod.splits)
  from ra show ?thesis
  proof (cases rule: runAssistant_cases)
    case (unprepared e)
    with es show ?thesis
      by (intro exI [of _ es'] exI [of _ "Threw e"] exI [of _ "[]"]) simp
  next
    case (unfinished es1 aid tid rt es2 r2)
    from pollingLoop_frame [OF unfinished(2)] have "list_all polling_event es2" by simp
    then have "list_all (\<lambda>ev. polling_event ev \<or> respond_event ev) es2"
      by (simp add: list_all_iff)
    with es unfinished show ?thesis
      by (intro exI [of _ es1] exI [of _ "Returned (aid, tid, rt)"] exI [of _ es2]) simp
  next
    case (responded es1 aid tid rt es2 s m2 es3 r3)
    from pollingLoop_frame [OF responded(2)] have "list_all polling_event es2" by simp
    moreover from respond_cases [OF responded(3)] have "list_all respond_event es3" by auto
    ultimately have "list_all (\<lambda>ev. polling_event ev \<or> respond_event ev) (es2 @ es3)"
      by (auto simp: list_all_iff)
    with es responded show ?thesis
      by (intro exI [of _ es1] exI [of _ "Returned (aid, tid, rt)"] exI [of _ "es2 @ es3"]) simp
  qed
qed

subsection \<open>The pushed tool list\<close>

lemma uniqWith_from_set: "set (uniqWith_from isEqual result vs) = set result \<union> set vs"
  by (induction vs arbitrary: result) (auto simp: list_ex_iff isEqual_def)

lemma uniqWith_from_distinct:
  "distinct result \<Longrightarrow> distinct (uniqWith_from isEqual result vs)"
  by (induction vs arbitrary: result) (auto simp: list_ex_iff isEqual_def)

lemma filteredTools_set:
  "set (filteredTools remoteTools fts) =
     {t \<in> set remoteTools \<union> set fts. \<not> (tool_type t = ''function'' \<and> tool_function t = None)}"
  by (auto simp: filteredTools_def uniqWith_def uniqWith_from_set)

lemma filteredTools_distinct: "distinct (filteredTools remoteTools fts)"
  by (simp add: filteredTools_def uniqWith_def uniqWith_from_distinct)

lemma filteredTools_example:
  "A \<noteq> B \<Longrightarrow> tool_function A \<noteq> None \<Longrightarrow> tool_function B \<noteq> None \<Longrightarrow>
     filteredTools [A] [A, B] = [A, B]"
  by (auto simp: filteredTools_def uniqWith_def isEqual_def)

lemma formatted_has_function:
  "t \<in> set (map (formatToOpenAIAssistantTool w) ts) \<Longrightarrow> tool_function t \<noteq> None"
  by (auto simp: formatToOpenAIAssistantTool_def)

lemma prepare_update:
  assumes "JSON_parse w (details a) = Inr d" and "property d ''id'' = Inr aid"
    and "assistants_retrieve w aid = Inr ra" and "fts \<noteq> []"
    and "prepare w fts a input opts m = (es, r, m')"
  shows "filter is_update es = [AssistantsUpdate aid (filteredTools (ra_tools ra) fts)]"
proof -
  let ?pushed = "filteredTools (ra_tools ra) fts"
  define rest where "rest = (\<lambda>_ :: unit.
     andThen (selectThread w opts) (\<lambda>threadId.
     andThen (await (MessagesCreate threadId input) (messages_create w threadId input)) (\<lambda>_.
     andThen (await (RunsCreate threadId (ra_id ra)) (runs_create w threadId (ra_id ra)))
       (\<lambda>runThread. ret (aid, threadId, runThread)))))"
  have q: "quiet (\<lambda>ev. \<not> is_update ev) (rest ())"
    unfolding rest_def
    by (intro quiet_andThen quiet_await quiet_ret quiet_selectThread_no_update) simp_all
  have p: "prepare w fts a input opts m =
             (case andThen (syncTools w aid ra fts) rest m of
                (es', x) \<Rightarrow> (AssistantsRetrieve aid # es', x))"
    using assms(1-3) by (simp add: prepare_def rest_def andThen_def lift_def await_def)
  show ?thesis
  proof (cases "assistants_update w aid ?pushed")
    case (Inl e)
    with p assms(4,5) show ?thesis
      by (auto simp: syncTools_def andThen_def await_def)
  next
    case (Inr u)
    obtain es' r' m'' where rr: "rest () m = (es', r', m'')" by (metis prod_cases3)
    with q have "list_all (\<lambda>ev. \<not> is_update ev) es'" unfolding quiet_def by blast
    then have "filter is_update es' = []" by (simp add: filter_empty_conv list_all_iff)
    with p assms(4,5) Inr rr show ?thesis
      by (auto simp: syncTools_def andThen_def await_def)
  qed
qed



subsection \<open>An answered poll\<close>

lemma run_answered:
  assumes "run w nd input opts m = (es, r, m')" and "answered m m' pre a post"
  shows "\<exists>a0 key es1 aid tid rt es0 m0 esa t ma es9.
      resolved w nd a0 key
      \<and> prepare w (map (formatToOpenAIAssistantTool w) (flatten (tools nd))) a0 input opts m
          = (es1, Returned (aid, tid, rt), m)
      \<and> intervalCallback w (flatten (tools nd)) tid (run_id rt) a m0 = (esa, t, ma)
      \<and> es = es0 @ esa @ es9
      \<and> (\<forall>e. t = Rejected e \<longrightarrow> polls m' = post \<and> es9 = [] \<and> r = Threw (new_Error_of e))
      \<and> (t = Abandoned \<longrightarrow> polls m' = post \<and> es9 = [] \<and> r = Stalled)
      \<and> (\<forall>ob. r = Returned (ReturnedObject ob) \<longrightarrow> (\<exists>U. out_usedTools ob = usedTools ma @ U))"
proof -
  let ?ts = "flatten (tools nd)"
  let ?fts = "map (formatToOpenAIAssistantTool w) ?ts"
  from assms(2) have pm: "polls m = pre @ a # post" and len: "length (polls m') \<le> length post"
    by (simp_all add: answered_def)
  then have moved: "m' \<noteq> m" by auto
  from assms(1) show ?thesis
  proof (cases rule: run_cases)
    case (unresolved e)
    with moved show ?thesis by simp
  next
    case (running a0 key es')
    from running(2) show ?thesis
    proof (cases rule: runAssistant_cases)
      case (unprepared e)
      with moved show ?thesis by simp
    next
      case (unfinished es1 aid tid rt es2 r2)
      from unfinished(2) pm have
        d: "drive w ?ts tid (run_id rt) (pre @ a # post) (m\<lparr>usedTools := []\<rparr>) = (es2, r2, m')"
        by (simp add: pollingLoop_drive)
      from drive_consumed [OF d refl len] obtain es0 m0 esa t ma es9 where
        h: "intervalCallback w ?ts tid (run_id rt) a m0 = (esa, t, ma)" "es2 = es0 @ esa @ es9"
           "\<not> continues t \<longrightarrow> polls m' = post \<and> es9 = [] \<and> r2 = settle t"
        by blast
      from unfinished(4) have nr: "\<forall>v. r \<noteq> Returned v" by auto
      from h(3) unfinished(4) have
        "\<forall>e. t = Rejected e \<longrightarrow> polls m' = post \<and> es9 = [] \<and> r = Threw (new_Error_of e)"
        "t = Abandoned \<longrightarrow> polls m' = post \<and> es9 = [] \<and> r = Stalled"
        by (auto simp: continues_def)
      with running(1,3) unfinished(1,3) h(1,2) nr show ?thesis
        by (intro exI [of _ a0] exI [of _ key] exI [of _ es1] exI [of _ aid] exI [of _ tid]
            exI [of _ rt] exI [of _ "resolveEvents nd a0 @ es1 @ es0"] exI [of _ m0]
            exI [of _ esa] exI [of _ t] exI [of _ ma] exI [of _ es9]) simp
    next
      case (responded es1 aid tid rt es2 s m2 es3 r3)
      note rc = respond_cases [OF responded(3)]
      from rc len have len2: "length (polls m2) \<le> length post" by auto
      from responded(2) pm have
        d: "drive w ?ts tid (run_id rt) (pre @ a # post) (m\<lparr>usedTools := []\<rparr>)
              = (es2, Returned s, m2)"
        by (simp add: pollingLoop_drive)
      from drive_consumed [OF d refl len2] obtain es0 m0 esa t ma es9 where
        h: "intervalCallback w ?ts tid (run_id rt) a m0 = (esa, t, ma)" "es2 = es0 @ esa @ es9"
           "\<exists>U. usedTools m2 = usedTools ma @ U"
           "\<not> continues t \<longrightarrow> polls m2 = post \<and> es9 = [] \<and> Returned s = settle t"
        by blast
      from h(4) have nt: "\<forall>e. t \<noteq> Rejected e" "t \<noteq> Abandoned"
        by (auto simp: continues_def)
      have "\<exists>U. out_usedTools ob = usedTools ma @ U" if "r = Returned (ReturnedObject ob)" for ob
      proof -
        from that responded(5) have "r3 = Returned (ReturnedObject ob)"
          by (cases r3) auto
        with rc have "out_usedTools ob = usedTools m2"
          by (auto split: if_splits)
        with h(3) show ?thesis by simp
      qed
      with running(1,3) responded(1,4) h(1,2) nt show ?thesis
        by (intro exI [of _ a0] exI [of _ key] exI [of _ es1] exI [of _ aid] exI [of _ tid]
            exI [of _ rt] exI [of _ "resolveEvents nd a0 @ es1 @ es0"] exI [of _ m0]
            exI [of _ esa] exI [of _ t] exI [of _ ma] exI [of _ "es9 @ es3"]) simp
    qed
  qed
qed

lemma new_Error_of_new_Error:
  "msg \<noteq> [] \<Longrightarrow> new_Error_of (new_Error msg) = new_Error (''Error: '' @ msg)"
  by (simp add: new_Error_of_def new_Error_def error_toString_def)

lemma intervalCallback_terminal:
  "terminal (status ro) \<Longrightarrow>
     intervalCallback w ts tid rid (Inr ro) m0 =
       ([RunsRetrieve tid rid, ClearInterval],
        Rejected (new_Error (''Error processing thread: '' @ status ro @ '', Thread ID: '' @ tid
                             @ '', Run ID: '' @ rid)),
        m0)"
  by (auto simp: intervalCallback_def terminal_def)

lemma parseActions_names:
  "parseActions w calls = Inr actions \<Longrightarrow> map act_tool actions = map tc_name calls"
  by (induction calls arbitrary: actions) (auto split: sum.splits)

lemma parseActions_total:
  "\<forall>c \<in> set calls. \<exists>j. JSON_parse w (tc_arguments c) = Inr j \<Longrightarrow>
     \<exists>actions. parseActions w calls = Inr actions"
  by (induction calls) (auto split: sum.splits)

lemma parseActions_error:
  "c \<in> set calls \<Longrightarrow> JSON_parse w (tc_arguments c) = Inl e \<Longrightarrow>
     \<exists>e'. parseActions w calls = Inl e'"
  by (induction calls) (auto split: sum.splits)

lemma matched_empty:
  "\<forall>a \<in> set actions. \<forall>t \<in> set ts. name t \<noteq> act_tool a \<Longrightarrow> matched ts actions = []"
  by (induction actions) (auto simp: matched_Nil matched_Cons find_None_iff split: option.splits)

lemma invokeTools_succeeds:
  "allSucceed (matched ts as) results \<Longrightarrow>
     invokeTools ts as outs m =
       (toolCallEvents (matched ts as),
        Returned (outs @ toolOutputs (matched ts as) results),
        m\<lparr>usedTools := usedTools m @ usedToolRecords (matched ts as) results\<rparr>)"
proof (induction as arbitrary: outs m results)
  case Nil
  then show ?case
    by (simp add: matched_Nil allSucceed_def toolCallEvents_def toolOutputs_def
        usedToolRecords_def ret_def)
next
  case (Cons a as)
  show ?case
  proof (cases "find (\<lambda>t. name t = act_tool a) ts")
    case None
    with Cons show ?thesis by (simp add: matched_Cons)
  next
    case (Some t)
    with Cons.prems obtain out rest where
      r: "results = out # rest" "call t (act_toolInput a) = Inr out"
         "allSucceed (matched ts as) rest"
      by (auto simp: matched_Cons allSucceed_def list_all2_Cons1)
    from Cons.IH [OF r(3)] Some r(1,2) show ?thesis
      by (simp add: matched_Cons andThen_def await_def pushUsedTool_def toolCallEvents_def
          toolOutputs_def usedToolRecords_def)
  qed
qed

lemma invokeTools_throws:
  assumes "(t, a) \<in> set (matched ts as)" and "call t (act_toolInput a) = Inl e"
    and "invokeTools ts as outs m = (es, r, m')"
  shows "\<exists>e'. r = Threw e'"
proof (cases r)
  case (Returned outs')
  with assms(3) invokeTools_returned [of ts as outs m es outs' m'] obtain results where
    "allSucceed (matched ts as) results" by blast
  with assms(1,2) show ?thesis
    by (auto simp: allSucceed_def list_all2_conv_all_nth in_set_conv_nth split: prod.splits)
qed (use invokeTools_frame [OF assms(3)] in auto)

lemma intervalCallback_unmatched:
  assumes "status ro = ''requires_action''" and "tool_calls ro = Some calls"
    and "parseActions w calls = Inr actions" and "matched ts actions = []"
  shows "intervalCallback w ts tid rid (Inr ro) m0 =
       ([RunsRetrieve tid rid, ClearInterval],
        Rejected (new_Error (''Error processing thread: requires_action, Thread ID: '' @ tid
                   @ '', Run ID: '' @ rid @ ''. submit_tool_outputs.tool_calls are empty'')),
        m0)"
proof -
  have "allSucceed (matched ts actions) []" using assms(4) by (simp add: allSucceed_def)
  from invokeTools_succeeds [OF this, of "[]" m0] assms show ?thesis
    by (simp add: intervalCallback_def submitRequiredAction_def andThen_def lift_def ret_def
        toolCallEvents_def toolOutputs_def usedToolRecords_def)
qed

lemma intervalCallback_parse_error:
  assumes "status ro = ''requires_action''" and "tool_calls ro = Some calls"
    and "parseActions w calls = Inl e"
  shows "intervalCallback w ts tid rid (Inr ro) m0 =
       ([RunsRetrieve tid rid, ClearInterval, UncaughtInCallback e], Abandoned, m0)"
  using assms by (simp add: intervalCallback_def submitRequiredAction_parse_error)

lemma intervalCallback_tool_throws:
  assumes "status ro = ''requires_action''" and "tool_calls ro = Some calls"
    and "parseActions w calls = Inr actions"
    and "(t, a) \<in> set (matched ts actions)" and "call t (act_toolInput a) = Inl e"
    and "intervalCallback w ts tid rid (Inr ro) m0 = (esa, tk, ma)"
  shows "tk = Abandoned \<and>
         (\<exists>cs e'. esa = [RunsRetrieve tid rid, ClearInterval] @ cs @ [UncaughtInCallback e']
                   \<and> (\<forall>ev \<in> set cs. \<exists>n j. ev = ToolCall n j))"
proof -
  obtain cs r1 m1 where inv: "invokeTools ts actions [] m0 = (cs, r1, m1)"
    by (metis prod_cases3)
  from invokeTools_throws [OF assms(4,5) inv] obtain e' where "r1 = Threw e'" by blast
  with inv assms(1,2,3,6) have "tk = Abandoned"
    "esa = [RunsRetrieve tid rid, ClearInterval] @ cs @ [UncaughtInCallback e']"
    by (auto simp: intervalCallback_def submitRequiredAction_def andThen_def lift_def)
  with invokeTools_frame [OF inv] show ?thesis by blast
qed


subsection \<open>Clearing a session\<close>

lemma clearThread_cases:
  assumes "clearThread w nd a sid m = (es, r, m')"
  shows "(\<exists>e. getCredentialData w (credentialOf a) = Inl e \<and> r = Threw e
              \<and> es = [GetCredentialData (credentialOf a)])
       \<or> (\<exists>cd. getCredentialData w (credentialOf a) = Inr cd
              \<and> \<not> truthy (getCredentialParam w ''openAIApiKey'' cd nd)
              \<and> r = Returned ()
              \<and> es = [GetCredentialData (credentialOf a), LoggerError ''OpenAI ApiKey not found''])
       \<or> (\<exists>cd e. getCredentialData w (credentialOf a) = Inr cd
              \<and> truthy (getCredentialParam w ''openAIApiKey'' cd nd)
              \<and> threads_del w sid = Inl e \<and> r = Threw e
              \<and> es = [GetCredentialData (credentialOf a),
                       LoggerInfo (''Clearing OpenAI Thread '' @ template sid), ThreadsDel sid])
       \<or> (\<exists>cd. getCredentialData w (credentialOf a) = Inr cd
              \<and> truthy (getCredentialParam w ''openAIApiKey'' cd nd)
              \<and> threads_del w sid = Inr () \<and> r = Returned ()
              \<and> es = [GetCredentialData (credentialOf a),
                       LoggerInfo (''Clearing OpenAI Thread '' @ template sid), ThreadsDel sid,
                       LoggerInfo (''Successfully cleared OpenAI Thread '' @ template sid)])"
proof (cases "getCredentialData w (credentialOf a)")
  case (Inl e)
  with assms show ?thesis
    by (auto simp: clearThread_def credentialOf_def andThen_def await_def)
next
  case (Inr cd)
  show ?thesis
  proof (cases "truthy (getCredentialParam w ''openAIApiKey'' cd nd)")
    case False
    with assms Inr show ?thesis
      by (auto simp: clearThread_def credentialOf_def andThen_def await_def emit_def)
  next
    case True
    with assms Inr show ?thesis
      by (cases "threads_del w sid")
         (auto simp: clearThread_def credentialOf_def andThen_def await_def emit_def)
  qed
qed

lemma clearSessionMemory_cases:
  assumes "clearSessionMemory w nd opts m = (es, r, m')"
  shows "(\<exists>e. r = Threw e \<and> list_all lookup_event es
             \<and> (findAssistant w (selectedAssistant nd) = Inl e
                 \<or> (\<exists>a. findAssistant w (selectedAssistant nd) = Inr (Some a))
                    \<and> findChatMessage w (chatId opts) = Inl e))
       \<or> (findAssistant w (selectedAssistant nd) = Inr None \<and> r = Returned ()
           \<and> es = [FindAssistant (selectedAssistant nd),
                    LoggerError (''Assistant '' @ template (selectedAssistant nd) @ '' not found'')])
       \<or> ((\<exists>a. findAssistant w (selectedAssistant nd) = Inr (Some a))
           \<and> \<not> truthy (sessionId nd) \<and> truthy (chatId opts)
           \<and> findChatMessage w (chatId opts) = Inr None \<and> r = Returned ()
           \<and> es = [FindAssistant (selectedAssistant nd), FindChatMessage (chatId opts),
                    LoggerError (''Chat Message with Chat Id: '' @ template (chatId opts)
                                 @ '' not found'')])
       \<or> (\<exists>a sid es0 es1. findAssistant w (selectedAssistant nd) = Inr (Some a)
             \<and> clearThread w nd a sid m = (es1, r, m') \<and> es = es0 @ es1
             \<and> list_all lookup_event es0
             \<and> (if \<not> truthy (sessionId nd) \<and> truthy (chatId opts)
                 then \<exists>c. findChatMessage w (chatId opts) = Inr (Some c)
                          \<and> sid = Some (cm_sessionId c)
                 else sid = sessionId nd))"
proof (cases "findAssistant w (selectedAssistant nd)")
  case (Inl e)
  with assms show ?thesis
    by (auto simp: clearSessionMemory_def Let_def andThen_def await_def)
next
  case (Inr found)
  show ?thesis
  proof (cases found)
    case None
    with assms Inr show ?thesis
      by (auto simp: clearSessionMemory_def Let_def andThen_def await_def emit_def)
  next
    case (Some a)
    show ?thesis
    proof (cases "\<not> truthy (sessionId nd) \<and> truthy (chatId opts)")
      case False
      with assms Inr Some obtain es1 where
        "clearThread w nd a (sessionId nd) m = (es1, r, m')"
        "es = [FindAssistant (selectedAssistant nd)] @ es1"
        by (auto simp: clearSessionMemory_def Let_def andThen_def await_def split: prod.splits)
      with Inr Some False show ?thesis
        apply -
        apply (rule disjI2, rule disjI2, rule disjI2, rule exI [of _ a],
            rule exI [of _ "sessionId nd"],
            rule exI [of _ "[FindAssistant (selectedAssistant nd)]"],
            rule exI [of _ es1])
        apply auto
        done
    next
      case True
      show ?thesis
      proof (cases "findChatMessage w (chatId opts)")
        case (Inl e)
        with assms Inr Some True show ?thesis
          by (auto simp: clearSessionMemory_def Let_def andThen_def await_def)
      next
        case msg: (Inr chatmsg)
        show ?thesis
        proof (cases chatmsg)
          case None
          with assms Inr Some True msg show ?thesis
            by (auto simp: clearSessionMemory_def Let_def andThen_def await_def emit_def)
        next
          case (Some c)
          with assms Inr \<open>found = Some a\<close> True msg obtain es1 where
            "clearThread w nd a (Some (cm_sessionId c)) m = (es1, r, m')"
            "es = [FindAssistant (selectedAssistant nd), FindChatMessage (chatId opts)] @ es1"
            by (auto simp: clearSessionMemory_def Let_def andThen_def await_def
                split: prod.splits)
          with Inr \<open>found = Some a\<close> True msg Some show ?thesis
            apply -
            apply (rule disjI2, rule disjI2, rule disjI2, rule exI [of _ a],
                rule exI [of _ "Some (cm_sessionId c)"],
                rule exI [of _ "[FindAssistant (selectedAssistant nd),
                                     FindChatMessage (chatId opts)]"],
                rule exI [of _ es1])
            apply auto
            done
        qed
      qed
    qed
  qed
qed

section \<open>The claims\<close>

text \<open>
  C1. Tool-list reconciliation. When the stored assistant and its key resolve, the remote assistant
  is retrieved and the local tool list is not empty, the invocation issues exactly one update of
  the remote assistant, and the list it pushes holds exactly the remote tools and the formatted
  local tools that are not function entries without a function body, each once (duplicates are
  recognised by structural equality of the whole entry). For remote tools \<open>[A]\<close> and local tools
  \<open>[A, B]\<close> with two different entries, the pushed list is \<open>[A, B]\<close>.
\<close>

theorem tool_list_reconciliation:
  assumes "resolved w nodeData a key"
    and "JSON_parse w (details a) = Inr assistantDetails"
    and "property assistantDetails ''id'' = Inr openAIAssistantId"
    and "assistants_retrieve w openAIAssistantId = Inr retrieved"
    and "formatted = map (formatToOpenAIAssistantTool w) (flatten (tools nodeData))"
    and "formatted \<noteq> []"
    and "run w nodeData input opts m = (es, r, m')"
  shows "\<exists>pushed.
           filter is_update es = [AssistantsUpdate openAIAssistantId pushed]
           \<and> set pushed = {t \<in> set (ra_tools retrieved) \<union> set formatted.
                             \<not> (tool_type t = ''function'' \<and> tool_function t = None)}
           \<and> distinct pushed
           \<and> (\<forall>A B. A \<noteq> B \<and> ra_tools retrieved = [A] \<and> formatted = [A, B]
                  \<longrightarrow> pushed = [A, B])"
proof -
  let ?pushed = "filteredTools (ra_tools retrieved) formatted"
  from run_events_resolved [OF assms(1,7)] assms(5) obtain es1 r1 es2 where
    es: "es = resolveEvents nodeData a @ es1 @ es2"
    and p: "prepare w formatted a input opts m = (es1, r1, m)"
    and e2: "list_all (\<lambda>ev. polling_event ev \<or> respond_event ev) es2"
    by auto
  from e2 have "filter is_update es2 = []"
    by (auto simp: filter_empty_conv list_all_iff dest: no_update_other)
  with es prepare_update [OF assms(2,3,4,6) p]
  have "filter is_update es = [AssistantsUpdate openAIAssistantId ?pushed]"
    by (simp add: resolveEvents_def)
  moreover have "\<forall>A B. A \<noteq> B \<and> ra_tools retrieved = [A] \<and> formatted = [A, B]
                  \<longrightarrow> ?pushed = [A, B]"
    using formatted_has_function [of _ w "flatten (tools nodeData)"] assms(5)
    by (auto intro!: filteredTools_example)
  ultimately show ?thesis
    using filteredTools_set [of "ra_tools retrieved" formatted]
      filteredTools_distinct [of "ra_tools retrieved" formatted]
    by blast
qed

theorem tool_list_reconciliation_witness:
  "filter is_update
     (fst (run synced_world (demo_nodeData (Some [Tool calculator, ToolList [search]])) ''hi''
             \<lparr>chatId = Some ''chat-1''\<rparr> (demo_machine [report ''completed'' None])))
   = [AssistantsUpdate (Some (JStr ''asst_1'')) [calculatorTool, searchTool]]"
proof -
  let ?nd = "demo_nodeData (Some [Tool calculator, ToolList [search]])"
  let ?run = "run synced_world ?nd ''hi'' \<lparr>chatId = Some ''chat-1''\<rparr>
                (demo_machine [report ''completed'' None])"
  have res: "resolved synced_world ?nd demo_assistant ''sk-demo''"
    by (simp add: resolved_def credentialOf_def synced_world_def demo_world_def demo_nodeData_def
        demo_assistant_def)
  have parse: "JSON_parse synced_world (details demo_assistant) = Inr (JObj [(''id'', JStr ''asst_1'')])"
    by (simp add: synced_world_def demo_world_def demo_assistant_def)
  have ident: "property (JObj [(''id'', JStr ''asst_1'')]) ''id'' = Inr (Some (JStr ''asst_1''))"
    by (simp add: property_def)
  have retr: "assistants_retrieve synced_world (Some (JStr ''asst_1''))
                = Inr \<lparr>ra_id = ''asst_1'', ra_tools = [calculatorTool]\<rparr>"
    by (simp add: synced_world_def)
  have fmt: "[calculatorTool, searchTool]
               = map (formatToOpenAIAssistantTool synced_world) (flatten (tools ?nd))"
    by (simp add: synced_world_def demo_world_def demo_nodeData_def calculatorTool_def
        searchTool_def calculator_def search_def formatToOpenAIAssistantTool_def)
  have run: "?run = (fst ?run, fst (snd ?run), snd (snd ?run))" by simp
  from tool_list_reconciliation [OF res parse ident retr fmt _ run]
  obtain pushed where
    "filter is_update (fst ?run) = [AssistantsUpdate (Some (JStr ''asst_1'')) pushed]"
    and "\<forall>A B. A \<noteq> B \<and> ra_tools \<lparr>ra_id = ''asst_1'', ra_tools = [calculatorTool]\<rparr> = [A]
               \<and> [calculatorTool, searchTool] = [A, B] \<longrightarrow> pushed = [A, B]"
    by blast
  moreover have "calculatorTool \<noteq> searchTool"
    by (simp add: calculatorTool_def searchTool_def)
  ultimately show ?thesis by simp
qed

text \<open>
  C2. The claim: an invocation in which the download of an image file fails still returns, its text
  omitting the markup of that image. The code: \<^verbatim>\<open>downloadFile\<close> catches and logs the failure, and
  \<^verbatim>\<open>run\<close> then reads the file all the same. With an empty cache the read throws and the
  invocation throws; with a file of that name left by an earlier invocation, the markup of the old
  file is part of the text.
\<close>

theorem failed_download_throws:
  "fst (snd (run image_world (demo_nodeData None) ''plot it'' \<lparr>chatId = Some ''chat-1''\<rparr>
               (demo_machine [report ''completed'' None])))
     = Threw (JsError ''Error''
         (''Error: ENOENT: no such file or directory, open '' @ [CHR 0x27]
          @ ''/home/demo/.flowise/openai-assistant/plot.png'' @ [CHR 0x27]))
   \<and> filter respond_event
       (fst (run image_world (demo_nodeData None) ''plot it'' \<lparr>chatId = Some ''chat-1''\<rparr>
               (demo_machine [report ''completed'' None])))
     = [MessagesList ''thread_new'', FilesRetrieve ''file_1'',
        Fetch ''https://api.openai.com/v1/files/file_1/content'' ''sk-demo'',
        ConsoleError (JsError ''Error'' ''HTTP error! status: 500''),
        ReadFile ''/home/demo/.flowise/openai-assistant/plot.png'']
   \<and> (case fst (snd (run image_world (demo_nodeData None) ''plot it''
                       \<lparr>chatId = Some ''chat-1''\<rparr> stale_machine)) of
         Returned (ReturnedObject ob) \<Rightarrow>
           out_text ob = ''Here is the plot: '' @ imgHTML ''OLD'' ''plot''
       | _ \<Rightarrow> False)"
  by code_simp

text \<open>
  C3. The claim, that \<^verbatim>\<open>run\<close> yields a thrown error or the result object and nothing else,
  fails where the thread has no message of the assistant: \<^verbatim>\<open>run\<close> returns the empty string.
\<close>

theorem empty_string_returned:
  "fst (snd (run silent_world (demo_nodeData None) ''hi'' \<lparr>chatId = Some ''chat-1''\<rparr>
               (demo_machine [report ''completed'' None])))
   = Returned (ReturnedString [])"
  by code_simp

text \<open>
  C3, amended. Whatever an invocation returns, it returns after listing the messages of the thread
  that \<open>prepare\<close> produced: the empty string if none of them is a message of the assistant,
  and otherwise the object made of the text, the used-tool records and the identifiers of the
  assistant, the thread and the run, with the messages as listed.
\<close>

theorem returned_shape:
  assumes "run w nodeData input opts m = (es, Returned v, m')"
  shows "\<exists>a key es1 aid threadId runThread ms.
           resolved w nodeData a key
           \<and> prepare w (map (formatToOpenAIAssistantTool w) (flatten (tools nodeData))) a input
                opts m = (es1, Returned (aid, threadId, runThread), m)
           \<and> MessagesList threadId \<in> set es
           \<and> messages_list w threadId = Inr ms
           \<and> (if assistantMessages ms = [] then v = ReturnedString []
               else \<exists>text. v = ReturnedObject
                      \<lparr>out_text = text, out_usedTools = usedTools m',
                       out_assistantId = aid, out_threadId = threadId,
                       out_runId = run_id runThread, out_messages = messageData ms\<rparr>)"
  using assms
proof (cases rule: run_cases)
  case (running a key es')
  from running(2) show ?thesis
  proof (cases rule: runAssistant_cases)
    case (responded es1 aid tid rt es2 s m2 es3 r3)
    from responded(5) have r3: "r3 = Returned v" by (cases r3) auto
    from respond_cases [OF responded(3)] r3 obtain ms where
      "MessagesList tid \<in> set es3" "usedTools m' = usedTools m2"
      "messages_list w tid = Inr ms"
      "if assistantMessages ms = [] then v = ReturnedString []
       else \<exists>text. v = ReturnedObject
              \<lparr>out_text = text, out_usedTools = usedTools m2,
               out_assistantId = aid, out_threadId = tid,
               out_runId = run_id rt, out_messages = messageData ms\<rparr>"
      by auto
    with running(1,3) responded(1,4) show ?thesis
      by (intro exI [of _ a] exI [of _ key] exI [of _ es1] exI [of _ aid] exI [of _ tid]
          exI [of _ rt] exI [of _ ms]) auto
  qed auto
qed simp

theorem returned_shape_witness:
  "(\<exists>a key es1 aid threadId runThread ms.
      resolved silent_world (demo_nodeData None) a key
      \<and> prepare silent_world
            (map (formatToOpenAIAssistantTool silent_world) (flatten (tools (demo_nodeData None))))
            a ''hi'' \<lparr>chatId = Some ''chat-1''\<rparr> (demo_machine [report ''completed'' None])
          = (es1, Returned (aid, threadId, runThread), demo_machine [report ''completed'' None])
      \<and> MessagesList threadId
          \<in> set (fst (run silent_world (demo_nodeData None) ''hi'' \<lparr>chatId = Some ''chat-1''\<rparr>
                          (demo_machine [report ''completed'' None])))
      \<and> messages_list silent_world threadId = Inr ms
      \<and> (if assistantMessages ms = [] then ReturnedString [] = ReturnedString []
          else \<exists>text. ReturnedString [] = ReturnedObject
                 \<lparr>out_text = text,
                  out_usedTools = usedTools (snd (snd (run silent_world (demo_nodeData None) ''hi''
                     \<lparr>chatId = Some ''chat-1''\<rparr> (demo_machine [report ''completed'' None])))),
                  out_assistantId = aid, out_threadId = threadId,
                  out_runId = run_id runThread, out_messages = messageData ms\<rparr>))
   \<and> fst (snd (run demo_world (demo_nodeData None) ''hi'' \<lparr>chatId = Some ''chat-1''\<rparr>
                  (demo_machine [report ''completed'' None])))
      = Returned (ReturnedObject
          \<lparr>out_text = ''Hello world'', out_usedTools = [],
           out_assistantId = Some (JStr ''asst_1''), out_threadId = ''thread_new'',
           out_runId = ''run_1'',
           out_messages =
             [\<lparr>role = ''assistant'',
               content = [MessageContentText ''Hello '', MessageContentText ''world'']\<rparr>,
              \<lparr>role = ''user'', content = [MessageContentText ''hi'']\<rparr>]\<rparr>)"
proof -
  let ?opts = "\<lparr>chatId = Some ''chat-1''\<rparr>"
  let ?m = "demo_machine [report ''completed'' None]"
  let ?S = "run silent_world (demo_nodeData None) ''hi'' ?opts ?m"
  have "fst (snd ?S) = Returned (ReturnedString [])" by code_simp
  then have runS: "?S = (fst ?S, Returned (ReturnedString []), snd (snd ?S))"
    by (metis prod.collapse)
  have object: "fst (snd (run demo_world (demo_nodeData None) ''hi'' ?opts ?m))
      = Returned (ReturnedObject
          \<lparr>out_text = ''Hello world'', out_usedTools = [],
           out_assistantId = Some (JStr ''asst_1''), out_threadId = ''thread_new'',
           out_runId = ''run_1'',
           out_messages =
             [\<lparr>role = ''assistant'',
               content = [MessageContentText ''Hello '', MessageContentText ''world'']\<rparr>,
              \<lparr>role = ''user'', content = [MessageContentText ''hi'']\<rparr>]\<rparr>)"
    by code_simp
  from returned_shape [OF runS] object show ?thesis by blast
qed

text \<open>
  C4. The claim, that a \<^verbatim>\<open>requires_action\<close> poll whose tool calls name no local tool makes the
  invocation fail with the explicit error, fails where the arguments of a call are not JSON: the
  callback parses the arguments of every call before it looks for the tools (lines 188 to 196), the
  exception of \<^verbatim>\<open>JSON.parse\<close> escapes the callback after the timer was cleared, and the
  invocation neither throws nor returns.
\<close>

theorem malformed_unmatched_call_stalls:
  "map name (flatten (tools (demo_nodeData (Some [Tool calculator])))) = [''calculator'']
   \<and> tc_name garbled_call = ''weather''
   \<and> fst (snd (run demo_world (demo_nodeData (Some [Tool calculator])) ''hi''
                  \<lparr>chatId = Some ''chat-1''\<rparr> (asking [garbled_call]))) = Stalled
   \<and> filter polling_event
         (fst (run demo_world (demo_nodeData (Some [Tool calculator])) ''hi''
                 \<lparr>chatId = Some ''chat-1''\<rparr> (asking [garbled_call])))
       = [RunsRetrieve ''thread_new'' ''run_1'', ClearInterval,
          UncaughtInCallback (JsError ''SyntaxError'' ''Unexpected end of JSON input'')]"
  by code_simp

text \<open>
  C4, amended. If a poll is answered \<^verbatim>\<open>requires_action\<close> with tool calls whose arguments all
  parse as JSON and none of which names a local tool, no tool runs and nothing is submitted (the
  poll and the clearing of the timer are the last events of the invocation), and the invocation
  throws the error that names the thread and the run:
  \<^verbatim>\<open>submit_tool_outputs.tool_calls are empty\<close>.
\<close>

theorem unmatched_calls_fail:
  assumes "run w nodeData input opts m = (es, r, m')"
    and "answered m m' pre (Inr ro) post"
    and "status ro = ''requires_action''" and "tool_calls ro = Some calls"
    and "\<forall>c \<in> set calls. \<exists>j. JSON_parse w (tc_arguments c) = Inr j"
    and "\<forall>c \<in> set calls. \<forall>t \<in> set (flatten (tools nodeData)). name t \<noteq> tc_name c"
  shows "\<exists>a key es1 aid threadId runThread es0.
           resolved w nodeData a key
           \<and> prepare w (map (formatToOpenAIAssistantTool w) (flatten (tools nodeData))) a input
                opts m = (es1, Returned (aid, threadId, runThread), m)
           \<and> es = es0 @ [RunsRetrieve threadId (run_id runThread), ClearInterval]
           \<and> polls m' = post
           \<and> r = Threw (new_Error
                 (''Error: Error processing thread: requires_action, Thread ID: '' @ threadId
                  @ '', Run ID: '' @ run_id runThread
                  @ ''. submit_tool_outputs.tool_calls are empty''))"
proof -
  let ?ts = "flatten (tools nodeData)"
  from parseActions_total [OF assms(5)] obtain actions where
    pa: "parseActions w calls = Inr actions" by blast
  from parseActions_names [OF pa] assms(6) have
    "\<forall>a \<in> set actions. \<forall>t \<in> set ?ts. name t \<noteq> act_tool a"
    by (metis (no_types, lifting) image_iff image_set)
  then have none: "matched ?ts actions = []" by (rule matched_empty)
  from run_answered [OF assms(1,2)] obtain a key es1 aid tid rt es0 m0 esa t ma es9 where
    h: "resolved w nodeData a key"
       "prepare w (map (formatToOpenAIAssistantTool w) ?ts) a input opts m
          = (es1, Returned (aid, tid, rt), m)"
       "intervalCallback w ?ts tid (run_id rt) (Inr ro) m0 = (esa, t, ma)"
       "es = es0 @ esa @ es9"
       "\<forall>e. t = Rejected e \<longrightarrow> polls m' = post \<and> es9 = [] \<and> r = Threw (new_Error_of e)"
    by blast
  from h(3) intervalCallback_unmatched [OF assms(3,4) pa none, of tid "run_id rt" m0]
  have esa: "esa = [RunsRetrieve tid (run_id rt), ClearInterval]"
    and t: "t = Rejected (new_Error (''Error processing thread: requires_action, Thread ID: ''
              @ tid @ '', Run ID: '' @ run_id rt @ ''. submit_tool_outputs.tool_calls are empty''))"
    by simp_all
  from h(5) t have "polls m' = post" "es9 = []"
    "r = Threw (new_Error (''Error: Error processing thread: requires_action, Thread ID: ''
              @ tid @ '', Run ID: '' @ run_id rt @ ''. submit_tool_outputs.tool_calls are empty''))"
    by (simp_all add: new_Error_of_new_Error)
  with h(1,2,4) esa show ?thesis by auto
qed

theorem unmatched_calls_fail_witness:
  "(\<exists>a key es1 aid threadId runThread es0.
      resolved demo_world (demo_nodeData (Some [Tool calculator])) a key
      \<and> prepare demo_world
           (map (formatToOpenAIAssistantTool demo_world)
              (flatten (tools (demo_nodeData (Some [Tool calculator])))))
           a ''hi'' \<lparr>chatId = Some ''chat-1''\<rparr> (asking [weather_call])
          = (es1, Returned (aid, threadId, runThread), asking [weather_call])
      \<and> fst (run demo_world (demo_nodeData (Some [Tool calculator])) ''hi''
                \<lparr>chatId = Some ''chat-1''\<rparr> (asking [weather_call]))
          = es0 @ [RunsRetrieve threadId (run_id runThread), ClearInterval]
      \<and> polls (snd (snd (run demo_world (demo_nodeData (Some [Tool calculator])) ''hi''
                \<lparr>chatId = Some ''chat-1''\<rparr> (asking [weather_call]))))
          = [report ''completed'' None]
      \<and> fst (snd (run demo_world (demo_nodeData (Some [Tool calculator])) ''hi''
                \<lparr>chatId = Some ''chat-1''\<rparr> (asking [weather_call])))
          = Threw (new_Error
                 (''Error: Error processing thread: requires_action, Thread ID: '' @ threadId
                  @ '', Run ID: '' @ run_id runThread
                  @ ''. submit_tool_outputs.tool_calls are empty'')))
   \<and> filter (\<lambda>ev. \<not> prepare_event ev \<and> \<not> resolve_event ev)
        (fst (run demo_world (demo_nodeData (Some [Tool calculator])) ''hi''
                \<lparr>chatId = Some ''chat-1''\<rparr> (asking [weather_call])))
      = [RunsRetrieve ''thread_new'' ''run_1'', ClearInterval]
   \<and> fst (snd (run demo_world (demo_nodeData (Some [Tool calculator])) ''hi''
                \<lparr>chatId = Some ''chat-1''\<rparr> (asking [weather_call])))
      = Threw (JsError ''Error''
          (''Error: Error processing thread: requires_action, Thread ID: thread_new, ''
           @ ''Run ID: run_1. submit_tool_outputs.tool_calls are empty''))"
proof -
  let ?nd = "demo_nodeData (Some [Tool calculator])"
  let ?run = "run demo_world ?nd ''hi'' \<lparr>chatId = Some ''chat-1''\<rparr> (asking [weather_call])"
  let ?ro = "\<lparr>run_id = ''run_1'', status = ''requires_action'',
              tool_calls = Some [weather_call]\<rparr>"
  have run: "?run = (fst ?run, fst (snd ?run), snd (snd ?run))" by simp
  have left: "polls (snd (snd ?run)) = [report ''completed'' None]" by code_simp
  have ans: "answered (asking [weather_call]) (snd (snd ?run)) [] (Inr ?ro)
               [report ''completed'' None]"
    unfolding answered_def left
    by (simp add: asking_def demo_machine_def report_def)
  have parses: "\<forall>c \<in> set [weather_call]. \<exists>j. JSON_parse demo_world (tc_arguments c) = Inr j"
    by (simp add: weather_call_def demo_world_def)
  have unknown: "\<forall>c \<in> set [weather_call]. \<forall>t \<in> set (flatten (tools ?nd)). name t \<noteq> tc_name c"
    by (simp add: weather_call_def demo_nodeData_def calculator_def)
  have concrete: "filter (\<lambda>ev. \<not> prepare_event ev \<and> \<not> resolve_event ev) (fst ?run)
      = [RunsRetrieve ''thread_new'' ''run_1'', ClearInterval]"
    by code_simp
  have message: "fst (snd ?run) = Threw (JsError ''Error''
          (''Error: Error processing thread: requires_action, Thread ID: thread_new, ''
           @ ''Run ID: run_1. submit_tool_outputs.tool_calls are empty''))"
    by code_simp
  from unmatched_calls_fail [OF run ans _ _ parses unknown] concrete message
  show ?thesis by simp
qed



text \<open>
  C6. If a poll of the run is answered with status \<^verbatim>\<open>cancelled\<close>, \<^verbatim>\<open>expired\<close> or \<^verbatim>\<open>failed\<close>,
  the invocation clears the timer and asks for no further status (the answers after it are never
  consumed, and the poll is the last call of the invocation), and it throws an error whose message
  names that status, the thread and the run that \<open>prepare\<close> produced; nothing is returned.
\<close>

theorem terminal_status_fails:
  assumes "run w nodeData input opts m = (es, r, m')"
    and "answered m m' pre (Inr ro) post"
    and "status ro = ''cancelled'' \<or> status ro = ''expired'' \<or> status ro = ''failed''"
  shows "\<exists>a key es1 aid threadId runThread es0.
           resolved w nodeData a key
           \<and> prepare w (map (formatToOpenAIAssistantTool w) (flatten (tools nodeData))) a input
                opts m = (es1, Returned (aid, threadId, runThread), m)
           \<and> es = es0 @ [RunsRetrieve threadId (run_id runThread), ClearInterval]
           \<and> polls m' = post
           \<and> r = Threw (new_Error (''Error: Error processing thread: '' @ status ro
                                    @ '', Thread ID: '' @ threadId
                                    @ '', Run ID: '' @ run_id runThread))"
proof -
  from run_answered [OF assms(1,2)] obtain a key es1 aid tid rt es0 m0 esa t ma es9 where
    h: "resolved w nodeData a key"
       "prepare w (map (formatToOpenAIAssistantTool w) (flatten (tools nodeData))) a input opts m
          = (es1, Returned (aid, tid, rt), m)"
       "intervalCallback w (flatten (tools nodeData)) tid (run_id rt) (Inr ro) m0 = (esa, t, ma)"
       "es = es0 @ esa @ es9"
       "\<forall>e. t = Rejected e \<longrightarrow> polls m' = post \<and> es9 = [] \<and> r = Threw (new_Error_of e)"
    by blast
  from assms(3) have "terminal (status ro)" by (simp add: terminal_def)
  from h(3) intervalCallback_terminal [OF this, of w "flatten (tools nodeData)" tid "run_id rt" m0]
  have esa: "esa = [RunsRetrieve tid (run_id rt), ClearInterval]"
    and t: "t = Rejected (new_Error (''Error processing thread: '' @ status ro
              @ '', Thread ID: '' @ tid @ '', Run ID: '' @ run_id rt))"
    by simp_all
  from h(5) t have "polls m' = post" "es9 = []"
    "r = Threw (new_Error (''Error: Error processing thread: '' @ status ro
              @ '', Thread ID: '' @ tid @ '', Run ID: '' @ run_id rt))"
    by (simp_all add: new_Error_of_new_Error)
  with h(1,2,4) esa show ?thesis by auto
qed

theorem terminal_status_fails_witness:
  "(\<exists>a key es1 aid threadId runThread es0.
      resolved demo_world (demo_nodeData None) a key
      \<and> prepare demo_world
           (map (formatToOpenAIAssistantTool demo_world) (flatten (tools (demo_nodeData None))))
           a ''hi'' \<lparr>chatId = Some ''chat-1''\<rparr> failing_machine
          = (es1, Returned (aid, threadId, runThread), failing_machine)
      \<and> fst (run demo_world (demo_nodeData None) ''hi'' \<lparr>chatId = Some ''chat-1''\<rparr>
                failing_machine)
          = es0 @ [RunsRetrieve threadId (run_id runThread), ClearInterval]
      \<and> polls (snd (snd (run demo_world (demo_nodeData None) ''hi'' \<lparr>chatId = Some ''chat-1''\<rparr>
                failing_machine))) = [report ''completed'' None]
      \<and> fst (snd (run demo_world (demo_nodeData None) ''hi'' \<lparr>chatId = Some ''chat-1''\<rparr>
                failing_machine))
          = Threw (new_Error (''Error: Error processing thread: '' @ ''failed''
                              @ '', Thread ID: '' @ threadId
                              @ '', Run ID: '' @ run_id runThread)))
   \<and> fst (snd (run demo_world (demo_nodeData None) ''hi'' \<lparr>chatId = Some ''chat-1''\<rparr>
                failing_machine))
      = Threw (JsError ''Error''
          ''Error: Error processing thread: failed, Thread ID: thread_new, Run ID: run_1'')"
proof -
  let ?run = "run demo_world (demo_nodeData None) ''hi'' \<lparr>chatId = Some ''chat-1''\<rparr>
                failing_machine"
  let ?ro = "\<lparr>run_id = ''run_1'', status = ''failed'', tool_calls = None\<rparr>"
  have run: "?run = (fst ?run, fst (snd ?run), snd (snd ?run))" by simp
  have left: "polls (snd (snd ?run)) = [report ''completed'' None]" by code_simp
  have ans: "answered failing_machine (snd (snd ?run)) [report ''in_progress'' None] (Inr ?ro)
               [report ''completed'' None]"
    unfolding answered_def left
    by (simp add: failing_machine_def demo_machine_def report_def)
  have concrete: "fst (snd ?run) = Threw (JsError ''Error''
          ''Error: Error processing thread: failed, Thread ID: thread_new, Run ID: run_1'')"
    by code_simp
  from terminal_status_fails [OF run ans] concrete show ?thesis by simp
qed




text \<open>
  C8. If the caller's tool list is empty, \<^verbatim>\<open>run\<close> makes no assistant-update call at all, whatever
  the collaborators answer: the log of the invocation holds no \<open>AssistantsUpdate\<close>.
\<close>

theorem no_tools_no_update:
  assumes "flatten (tools nodeData) = []"
    and "run w nodeData input opts m = (es, r, m')"
  shows "filter is_update es = []"
proof -
  from run_events [OF assms(2)] obtain es0 es1 es2 where
    es: "es = es0 @ es1 @ es2" and e0: "list_all resolve_event es0"
    and e1: "es1 = [] \<or>
               (\<exists>a key r1. resolved w nodeData a key
                  \<and> prepare w (map (formatToOpenAIAssistantTool w) (flatten (tools nodeData))) a
                       input opts m = (es1, r1, m))"
    and e2: "list_all (\<lambda>ev. polling_event ev \<or> respond_event ev) es2"
    by blast
  have "list_all (\<lambda>ev. \<not> is_update ev) es1"
  proof (cases "es1 = []")
    case False
    with e1 assms(1) obtain a r1 where "prepare w [] a input opts m = (es1, r1, m)"
      by auto
    with quiet_prepare_Nil [of w a input opts] show ?thesis
      unfolding quiet_def by blast
  qed simp
  moreover from e0 have "list_all (\<lambda>ev. \<not> is_update ev) es0"
    by (auto simp: list_all_iff dest: no_update_other)
  moreover from e2 have "list_all (\<lambda>ev. \<not> is_update ev) es2"
    by (auto simp: list_all_iff dest: no_update_other)
  ultimately show ?thesis
    using es by (simp add: filter_empty_conv list_all_iff)
qed

theorem no_tools_no_update_witness:
  "flatten (tools (demo_nodeData (Some []))) = []
   \<and> filter is_update
       (fst (run demo_world (demo_nodeData (Some [])) ''hi'' \<lparr>chatId = Some ''chat-1''\<rparr>
               (demo_machine [report ''completed'' None]))) = []"
  using no_tools_no_update [of "demo_nodeData (Some [])" demo_world "''hi''"
      "\<lparr>chatId = Some ''chat-1''\<rparr>" "demo_machine [report ''completed'' None]"]
  by (cases "run demo_world (demo_nodeData (Some [])) ''hi'' \<lparr>chatId = Some ''chat-1''\<rparr>
               (demo_machine [report ''completed'' None])")
     (simp add: demo_nodeData_def)

text \<open>
  C9. The claim, that \<^verbatim>\<open>clearSessionMemory\<close> never propagates an error, fails where the
  deletion of the remote thread fails: the error reaches the caller.
\<close>

theorem deletion_failure_propagates:
  "fst (snd (clearSessionMemory undeletable_world session_nodeData \<lparr>chatId = Some ''chat-old''\<rparr>
               (demo_machine [])))
   = Threw (JsError ''NotFoundError'' ''No thread found'')"
  by code_simp

text \<open>
  C9, amended. \<^verbatim>\<open>clearSessionMemory\<close> returns normally, with an error message in the log as
  its last event and without asking for a deletion, when the stored assistant, the chat message or
  the API key is missing. When the deletion is asked for and fails, the error is thrown to the
  caller, the deletion being the last event; when it succeeds, the function returns normally.
\<close>

theorem session_clearing_outcomes:
  assumes "clearSessionMemory w nodeData opts m = (es, r, m')"
  shows "(findAssistant w (selectedAssistant nodeData) = Inr None \<longrightarrow>
            r = Returned ()
            \<and> es = [FindAssistant (selectedAssistant nodeData),
                     LoggerError (''Assistant '' @ template (selectedAssistant nodeData)
                                  @ '' not found'')])
       \<and> (\<forall>a. findAssistant w (selectedAssistant nodeData) = Inr (Some a)
               \<and> \<not> truthy (sessionId nodeData) \<and> truthy (chatId opts)
               \<and> findChatMessage w (chatId opts) = Inr None \<longrightarrow>
            r = Returned ()
            \<and> es = [FindAssistant (selectedAssistant nodeData), FindChatMessage (chatId opts),
                     LoggerError (''Chat Message with Chat Id: '' @ template (chatId opts)
                                  @ '' not found'')])
       \<and> (\<forall>a cd. findAssistant w (selectedAssistant nodeData) = Inr (Some a)
               \<and> GetCredentialData (credentialOf a) \<in> set es
               \<and> getCredentialData w (credentialOf a) = Inr cd
               \<and> \<not> truthy (getCredentialParam w ''openAIApiKey'' cd nodeData) \<longrightarrow>
            r = Returned ()
            \<and> (\<exists>es0. es = es0 @ [GetCredentialData (credentialOf a),
                                   LoggerError ''OpenAI ApiKey not found'']
                      \<and> list_all lookup_event es0))
       \<and> (\<forall>sid e. ThreadsDel sid \<in> set es \<and> threads_del w sid = Inl e \<longrightarrow>
            r = Threw e \<and> (\<exists>es0. es = es0 @ [ThreadsDel sid]))
       \<and> (\<forall>sid. ThreadsDel sid \<in> set es \<and> threads_del w sid = Inr () \<longrightarrow> r = Returned ())"
proof -
  note cases = clearSessionMemory_cases [OF assms]
  then consider
    (lookup) e where "r = Threw e" "list_all lookup_event es"
      "findAssistant w (selectedAssistant nodeData) = Inl e
       \<or> (\<exists>a. findAssistant w (selectedAssistant nodeData) = Inr (Some a))
          \<and> findChatMessage w (chatId opts) = Inl e"
  | (no_assistant) "findAssistant w (selectedAssistant nodeData) = Inr None" "r = Returned ()"
      "es = [FindAssistant (selectedAssistant nodeData),
             LoggerError (''Assistant '' @ template (selectedAssistant nodeData) @ '' not found'')]"
  | (no_message) "\<exists>a. findAssistant w (selectedAssistant nodeData) = Inr (Some a)"
      "\<not> truthy (sessionId nodeData)" "truthy (chatId opts)"
      "findChatMessage w (chatId opts) = Inr None" "r = Returned ()"
      "es = [FindAssistant (selectedAssistant nodeData), FindChatMessage (chatId opts),
             LoggerError (''Chat Message with Chat Id: '' @ template (chatId opts)
                          @ '' not found'')]"
  | (clearing) a sid es0 es1 where
      "findAssistant w (selectedAssistant nodeData) = Inr (Some a)"
      "clearThread w nodeData a sid m = (es1, r, m')" "es = es0 @ es1"
      "list_all lookup_event es0"
      "if \<not> truthy (sessionId nodeData) \<and> truthy (chatId opts)
       then \<exists>c. findChatMessage w (chatId opts) = Inr (Some c) \<and> sid = Some (cm_sessionId c)
       else sid = sessionId nodeData"
    by blast
  then show ?thesis
  proof cases
    case (lookup e)
    then show ?thesis by (auto simp: list_all_iff)
  next
    case no_assistant
    then show ?thesis by auto
  next
    case no_message
    then show ?thesis by auto
  next
    case (clearing a sid es0 es1)
    from clearThread_cases [OF clearing(2)] clearing(1,3,4,5) show ?thesis
      by (elim disjE exE conjE) (auto simp: list_all_iff)
  qed
qed

theorem session_clearing_outcomes_witness:
  "fst (snd (clearSessionMemory demo_world unknown_nodeData \<lparr>chatId = Some ''chat-old''\<rparr>
               (demo_machine []))) = Returned ()
   \<and> fst (clearSessionMemory demo_world unknown_nodeData \<lparr>chatId = Some ''chat-old''\<rparr>
               (demo_machine []))
       = [FindAssistant (Some ''a2''), LoggerError ''Assistant a2 not found'']
   \<and> fst (snd (clearSessionMemory demo_world (demo_nodeData None) \<lparr>chatId = Some ''chat-1''\<rparr>
               (demo_machine []))) = Returned ()
   \<and> fst (clearSessionMemory demo_world (demo_nodeData None) \<lparr>chatId = Some ''chat-1''\<rparr>
               (demo_machine []))
       = [FindAssistant (Some ''a1''), FindChatMessage (Some ''chat-1''),
          LoggerError ''Chat Message with Chat Id: chat-1 not found'']
   \<and> fst (snd (clearSessionMemory keyless_world session_nodeData \<lparr>chatId = Some ''chat-old''\<rparr>
               (demo_machine []))) = Returned ()
   \<and> fst (snd (clearSessionMemory undeletable_world session_nodeData
               \<lparr>chatId = Some ''chat-old''\<rparr> (demo_machine [])))
       = Threw (JsError ''NotFoundError'' ''No thread found'')
   \<and> fst (snd (clearSessionMemory demo_world session_nodeData \<lparr>chatId = Some ''chat-old''\<rparr>
               (demo_machine []))) = Returned ()"
proof -
  let ?old = "\<lparr>chatId = Some ''chat-old''\<rparr>"
  let ?m = "demo_machine []"
  let ?A = "clearSessionMemory demo_world unknown_nodeData ?old ?m"
  let ?B = "clearSessionMemory demo_world (demo_nodeData None) \<lparr>chatId = Some ''chat-1''\<rparr> ?m"
  let ?C = "clearSessionMemory keyless_world session_nodeData ?old ?m"
  let ?D = "clearSessionMemory undeletable_world session_nodeData ?old ?m"
  let ?E = "clearSessionMemory demo_world session_nodeData ?old ?m"
  have A: "?A = (fst ?A, fst (snd ?A), snd (snd ?A))" by simp
  have B: "?B = (fst ?B, fst (snd ?B), snd (snd ?B))" by simp
  have C: "?C = (fst ?C, fst (snd ?C), snd (snd ?C))" by simp
  have D: "?D = (fst ?D, fst (snd ?D), snd (snd ?D))" by simp
  have E: "?E = (fst ?E, fst (snd ?E), snd (snd ?E))" by simp
  have "fst (snd ?A) = Returned ()
        \<and> fst ?A = [FindAssistant (Some ''a2''), LoggerError ''Assistant a2 not found'']"
    using session_clearing_outcomes [OF A, THEN conjunct1]
    by (simp add: demo_world_def unknown_nodeData_def template_def)
  moreover
  have "fst (snd ?B) = Returned ()
        \<and> fst ?B = [FindAssistant (Some ''a1''), FindChatMessage (Some ''chat-1''),
                    LoggerError ''Chat Message with Chat Id: chat-1 not found'']"
    using session_clearing_outcomes [OF B, THEN conjunct2, THEN conjunct1, rule_format,
        of demo_assistant]
    by (simp add: demo_world_def demo_nodeData_def template_def truthy_def)
  moreover
  have "GetCredentialData (credentialOf demo_assistant) \<in> set (fst ?C)" by code_simp
  then have "fst (snd ?C) = Returned ()"
    using session_clearing_outcomes [OF C, THEN conjunct2, THEN conjunct2, THEN conjunct1,
        rule_format, of demo_assistant "[]"]
    by (simp add: keyless_world_def demo_world_def session_nodeData_def truthy_def)
  moreover
  have "ThreadsDel (Some ''thread_old'') \<in> set (fst ?D)" by code_simp
  then have "fst (snd ?D) = Threw (JsError ''NotFoundError'' ''No thread found'')"
    using session_clearing_outcomes [OF D, THEN conjunct2, THEN conjunct2, THEN conjunct2,
        THEN conjunct1, rule_format, of "Some ''thread_old''"
        "JsError ''NotFoundError'' ''No thread found''"]
    by (simp add: undeletable_world_def)
  moreover
  have "ThreadsDel (Some ''thread_old'') \<in> set (fst ?E)" by code_simp
  then have "fst (snd ?E) = Returned ()"
    using session_clearing_outcomes [OF E, THEN conjunct2, THEN conjunct2, THEN conjunct2,
        THEN conjunct2, rule_format, of "Some ''thread_old''"]
    by (simp add: demo_world_def)
  ultimately show ?thesis by blast
qed

text \<open>
  C10. If, in a \<^verbatim>\<open>requires_action\<close> cycle with tool calls, parsing the arguments of a call throws
  or the \<^verbatim>\<open>call\<close> method of a matched tool throws, the exception leaves the callback after the
  timer was cleared: after that poll the log holds only the tool calls made before the exception,
  no submission follows, no later answer of the service is consumed, and the invocation neither
  returns nor throws (\<open>Stalled\<close>).
\<close>

theorem exception_in_callback_stalls:
  assumes "run w nodeData input opts m = (es, r, m')"
    and "answered m m' pre (Inr ro) post"
    and "status ro = ''requires_action''" and "tool_calls ro = Some calls"
    and "(\<exists>c \<in> set calls. \<exists>e. JSON_parse w (tc_arguments c) = Inl e)
         \<or> (\<exists>actions. parseActions w calls = Inr actions
               \<and> (\<exists>(t, a) \<in> set (matched (flatten (tools nodeData)) actions).
                     \<exists>e. call t (act_toolInput a) = Inl e))"
  shows "r = Stalled \<and> polls m' = post
         \<and> (\<exists>es0 threadId runId cs e.
               es = es0 @ [RunsRetrieve threadId runId, ClearInterval] @ cs @ [UncaughtInCallback e]
               \<and> (\<forall>ev \<in> set cs. \<exists>n j. ev = ToolCall n j))"
proof -
  let ?ts = "flatten (tools nodeData)"
  from run_answered [OF assms(1,2)] obtain tid rt es0 m0 esa t ma es9 where
    h: "intervalCallback w ?ts tid (run_id (rt :: run_object)) (Inr ro) m0 = (esa, t, ma)"
       "es = es0 @ esa @ es9"
       "t = Abandoned \<longrightarrow> polls m' = post \<and> es9 = [] \<and> r = Stalled"
    by blast
  have "t = Abandoned \<and>
         (\<exists>cs e'. esa = [RunsRetrieve tid (run_id rt), ClearInterval] @ cs @ [UncaughtInCallback e']
                   \<and> (\<forall>ev \<in> set cs. \<exists>n j. ev = ToolCall n j))"
  proof (cases "parseActions w calls")
    case (Inl e)
    from h(1) intervalCallback_parse_error [OF assms(3,4) Inl, of ?ts tid "run_id rt" m0]
    have "t = Abandoned"
      "esa = [RunsRetrieve tid (run_id rt), ClearInterval] @ [] @ [UncaughtInCallback e]"
      by simp_all
    then show ?thesis by (metis empty_iff list.set(1))
  next
    case (Inr actions)
    with assms(5) parseActions_error [of _ calls w] obtain tl a e where
      "(tl, a) \<in> set (matched ?ts actions)" "call tl (act_toolInput a) = Inl e"
      by fastforce
    from intervalCallback_tool_throws [OF assms(3,4) Inr this h(1)] show ?thesis .
  qed
  then obtain cs e' where
    t: "t = Abandoned"
    and esa: "esa = [RunsRetrieve tid (run_id rt), ClearInterval] @ cs @ [UncaughtInCallback e']"
    and cs: "\<forall>ev \<in> set cs. \<exists>n j. ev = ToolCall n j"
    by blast
  from h(2,3) t esa have
    "es = es0 @ [RunsRetrieve tid (run_id rt), ClearInterval] @ cs @ [UncaughtInCallback e']"
    "r = Stalled" "polls m' = post"
    by simp_all
  with cs show ?thesis by blast
qed

theorem exception_in_callback_stalls_witness:
  "(fst (snd (run demo_world two_tools ''hi'' \<lparr>chatId = Some ''chat-1''\<rparr>
                (asking [malformed_call]))) = Stalled
    \<and> polls (snd (snd (run demo_world two_tools ''hi'' \<lparr>chatId = Some ''chat-1''\<rparr>
                (asking [malformed_call])))) = [report ''completed'' None]
    \<and> (\<exists>es0 threadId runId cs e.
          fst (run demo_world two_tools ''hi'' \<lparr>chatId = Some ''chat-1''\<rparr>
                 (asking [malformed_call]))
            = es0 @ [RunsRetrieve threadId runId, ClearInterval] @ cs @ [UncaughtInCallback e]
          \<and> (\<forall>ev \<in> set cs. \<exists>n j. ev = ToolCall n j)))
   \<and> (fst (snd (run demo_world with_faulty ''hi'' \<lparr>chatId = Some ''chat-1''\<rparr>
                (asking [calculator_call, faulty_call]))) = Stalled
    \<and> polls (snd (snd (run demo_world with_faulty ''hi'' \<lparr>chatId = Some ''chat-1''\<rparr>
                (asking [calculator_call, faulty_call])))) = [report ''completed'' None]
    \<and> (\<exists>es0 threadId runId cs e.
          fst (run demo_world with_faulty ''hi'' \<lparr>chatId = Some ''chat-1''\<rparr>
                 (asking [calculator_call, faulty_call]))
            = es0 @ [RunsRetrieve threadId runId, ClearInterval] @ cs @ [UncaughtInCallback e]
          \<and> (\<forall>ev \<in> set cs. \<exists>n j. ev = ToolCall n j)))
   \<and> filter polling_event
        (fst (run demo_world with_faulty ''hi'' \<lparr>chatId = Some ''chat-1''\<rparr>
                (asking [calculator_call, faulty_call])))
      = [RunsRetrieve ''thread_new'' ''run_1'', ClearInterval,
         ToolCall ''calculator'' (JObj []), ToolCall ''faulty'' (JObj []),
         UncaughtInCallback (JsError ''Error'' ''tool failed'')]"
proof -
  let ?opts = "\<lparr>chatId = Some ''chat-1''\<rparr>"
  let ?A = "run demo_world two_tools ''hi'' ?opts (asking [malformed_call])"
  let ?B = "run demo_world with_faulty ''hi'' ?opts (asking [calculator_call, faulty_call])"
  have runA: "?A = (fst ?A, fst (snd ?A), snd (snd ?A))" by simp
  have runB: "?B = (fst ?B, fst (snd ?B), snd (snd ?B))" by simp
  have leftA: "polls (snd (snd ?A)) = [report ''completed'' None]" by code_simp
  have leftB: "polls (snd (snd ?B)) = [report ''completed'' None]" by code_simp
  have ansA: "answered (asking [malformed_call]) (snd (snd ?A)) []
                (Inr \<lparr>run_id = ''run_1'', status = ''requires_action'',
                      tool_calls = Some [malformed_call]\<rparr>) [report ''completed'' None]"
    unfolding answered_def leftA
    by (simp add: asking_def demo_machine_def report_def)
  have ansB: "answered (asking [calculator_call, faulty_call]) (snd (snd ?B)) []
                (Inr \<lparr>run_id = ''run_1'', status = ''requires_action'',
                      tool_calls = Some [calculator_call, faulty_call]\<rparr>)
                [report ''completed'' None]"
    unfolding answered_def leftB
    by (simp add: asking_def demo_machine_def report_def)
  have badA: "\<exists>c \<in> set [malformed_call]. \<exists>e. JSON_parse demo_world (tc_arguments c) = Inl e"
    by (simp add: malformed_call_def demo_world_def)
  have parsedB: "parseActions demo_world [calculator_call, faulty_call] =
      Inr [\<lparr>act_tool = ''calculator'', act_toolInput = JObj [], act_toolCallId = ''call_1''\<rparr>,
           \<lparr>act_tool = ''faulty'', act_toolInput = JObj [], act_toolCallId = ''call_4''\<rparr>]"
    by (simp add: calculator_call_def faulty_call_def demo_world_def)
  have badB: "\<exists>actions. parseActions demo_world [calculator_call, faulty_call] = Inr actions
               \<and> (\<exists>(t, a) \<in> set (matched (flatten (tools with_faulty)) actions).
                     \<exists>e. call t (act_toolInput a) = Inl e)"
    unfolding parsedB
    by (simp add: with_faulty_def demo_nodeData_def matched_Cons matched_Nil calculator_def
        faulty_def)
  have events: "filter polling_event (fst ?B)
      = [RunsRetrieve ''thread_new'' ''run_1'', ClearInterval,
         ToolCall ''calculator'' (JObj []), ToolCall ''faulty'' (JObj []),
         UncaughtInCallback (JsError ''Error'' ''tool failed'')]"
    by code_simp
  from exception_in_callback_stalls [OF runA ansA _ _ disjI1 [OF badA]]
       exception_in_callback_stalls [OF runB ansB _ _ disjI2 [OF badB]] events
  show ?thesis by simp
qed

end
